theory Spec2Isabelle
  imports Main "HOL-Library.AList" "HOL-Library.Char_ord" "HOL-Library.List_Lexorder" "HOL-Library.Sublist"
begin

unbundle bit_operations_syntax

section \<open>JavaScript values\<close>

text \<open>
  The sync code moves JSON documents around, so its values are the JSON values plus
  \<open>undefined\<close>, which is what reading a missing property gives. An object is an
  association list in the order in which its keys were inserted, with at most one entry per
  key. Numbers are the integers that a JavaScript number holds exactly, those of magnitude
  up to \<open>2 ^ 53 - 1\<close> (time stamps in milliseconds, versions, counts); strings are byte
  strings (UTF-8), so for ASCII text a \<open>char\<close> is a character. \<open>js_value\<close> below says
  which terms of the type stand for a value of the language.
\<close>

datatype json =
    JUndefined
  | JNull
  | JBool bool
  | JNum int
  | JStr string
  | JArr "json list"
  | JObj "(string \<times> json) list"

text \<open>A thrown value: every \<open>throw\<close> of the source throws an \<open>Error\<close>, read only
  through \<open>e.message\<close>.\<close>

datatype error = Error (message: string)

fun truthy :: "json \<Rightarrow> bool" where
  "truthy JUndefined = False"
| "truthy JNull = False"
| "truthy (JBool b) = b"
| "truthy (JNum n) = (n \<noteq> 0)"
| "truthy (JStr s) = (s \<noteq> [])"
| "truthy (JArr xs) = True"
| "truthy (JObj kvs) = True"

text \<open>\<open>a || b\<close> and \<open>a && b\<close> return one of their operands, not a boolean.\<close>

definition js_or :: "json \<Rightarrow> json \<Rightarrow> json" where
  "js_or a b = (if truthy a then a else b)"

definition js_and :: "json \<Rightarrow> json \<Rightarrow> json" where
  "js_and a b = (if truthy a then b else a)"

fun nullish :: "json \<Rightarrow> bool" where
  "nullish JUndefined = True"
| "nullish JNull = True"
| "nullish v = False"

text \<open>Reading a property \<open>v.k\<close> of a value that is neither \<open>null\<close> nor \<open>undefined\<close>
  (on those JavaScript throws a TypeError; every caller below checks \<open>nullish\<close> first where
  the source can reach such a read). The keys read by the source are never built-in
  properties of strings, numbers or arrays, so a read on those is \<open>undefined\<close>.\<close>

fun get :: "json \<Rightarrow> string \<Rightarrow> json" where
  "get (JObj kvs) k = (case map_of kvs k of Some v \<Rightarrow> v | None \<Rightarrow> JUndefined)"
| "get v k = JUndefined"

text \<open>The assignment \<open>v.k = x\<close>: an object gets the key (in place when it has it, at the
  end otherwise); on a primitive the assignment is silently dropped (sloppy mode), and an
  extra property of an array is not part of its JSON.\<close>

fun set_prop :: "json \<Rightarrow> string \<Rightarrow> json \<Rightarrow> json" where
  "set_prop (JObj kvs) k x = JObj (AList.update k x kvs)"
| "set_prop v k x = v"

text \<open>\<open>a === b\<close> for values that come from different places: primitives compare by
  type and value, two objects or arrays are never the same reference.\<close>

fun strict_eq :: "json \<Rightarrow> json \<Rightarrow> bool" where
  "strict_eq JUndefined JUndefined = True"
| "strict_eq JNull JNull = True"
| "strict_eq (JBool a) (JBool b) = (a = b)"
| "strict_eq (JNum a) (JNum b) = (a = b)"
| "strict_eq (JStr a) (JStr b) = (a = b)"
| "strict_eq a b = False"

fun is_array :: "json \<Rightarrow> bool" where
  "is_array (JArr xs) = True"
| "is_array v = False"

fun elems :: "json \<Rightarrow> json list" where
  "elems (JArr xs) = xs"
| "elems v = []"

definition members :: "json \<Rightarrow> (string \<times> json) list" where
  "members v = (case v of JObj kvs \<Rightarrow> kvs | _ \<Rightarrow> [])"

definition safe_integer :: "int \<Rightarrow> bool" where
  "safe_integer n = (- 9007199254740991 \<le> n \<and> n \<le> 9007199254740991)"

fun js_value :: "json \<Rightarrow> bool"
  and js_values :: "json list \<Rightarrow> bool"
  and js_members :: "(string \<times> json) list \<Rightarrow> bool" where
  "js_value (JNum n) = safe_integer n"
| "js_value (JArr xs) = js_values xs"
| "js_value (JObj kvs) = (distinct (map fst kvs) \<and> js_members kvs)"
| "js_value JUndefined = True"
| "js_value JNull = True"
| "js_value (JBool b) = True"
| "js_value (JStr s) = True"
| "js_values [] = True"
| "js_values (x # xs) = (js_value x \<and> js_values xs)"
| "js_members [] = True"
| "js_members ((k, v) # kvs) = (js_value v \<and> js_members kvs)"

subsection \<open>Printing numbers and strings\<close>

definition digit_char :: "nat \<Rightarrow> char" where
  "digit_char n = ''0123456789abcdef'' ! n"

fun digits :: "nat \<Rightarrow> string" where
  "digits n = (if n < 10 then [digit_char n] else digits (n div 10) @ [digit_char (n mod 10)])"

declare digits.simps [simp del]

text \<open>The decimal numeral of an integer, which is how the language prints the integers
  it holds exactly.\<close>

definition show_int :: "int \<Rightarrow> string" where
  "show_int i = (if i < 0 then CHR ''-'' # digits (nat (- i)) else digits (nat i))"

fun join_with :: "string \<Rightarrow> string list \<Rightarrow> string" where
  "join_with sep [] = []"
| "join_with sep [s] = s"
| "join_with sep (s # t # ts) = s @ sep @ join_with sep (t # ts)"

text \<open>\<open>String(v)\<close>, as a template literal and \<open>new Error(v)\<close> apply it.\<close>

fun ToString :: "json \<Rightarrow> string" and ToString_elems :: "json list \<Rightarrow> string list" where
  "ToString JUndefined = ''undefined''"
| "ToString JNull = ''null''"
| "ToString (JBool b) = (if b then ''true'' else ''false'')"
| "ToString (JNum n) = show_int n"
| "ToString (JStr s) = s"
| "ToString (JArr xs) = join_with '','' (ToString_elems xs)"
| "ToString (JObj kvs) = ''[object Object]''"
| "ToString_elems [] = []"
| "ToString_elems (x # xs) = (if nullish x then [] else ToString x) # ToString_elems xs"

text \<open>\<open>new Error(v)\<close>: the message is empty when \<open>v\<close> is \<open>undefined\<close>.\<close>

definition new_Error :: "json \<Rightarrow> error" where
  "new_Error v = Error (if v = JUndefined then [] else ToString v)"

definition cannot_read :: "json \<Rightarrow> string \<Rightarrow> error" where
  "cannot_read v k =
     Error (''Cannot read properties of '' @ ToString v @ '' (reading '' @ [CHR 0x27] @ k @ [CHR 0x27] @ '')'')"

subsection \<open>JSON.stringify\<close>

text \<open>A string is quoted with the escapes of \<open>JSON.stringify\<close>: the quote, the backslash,
  the short escapes, and \<open>\u00XX\<close> for the other control characters.\<close>

definition escape_char :: "char \<Rightarrow> string" where
  "escape_char c =
     (if c = CHR 0x22 then [CHR 0x5C, CHR 0x22]
      else if c = CHR 0x5C then [CHR 0x5C, CHR 0x5C]
      else if c = CHR 0x08 then [CHR 0x5C, CHR ''b'']
      else if c = CHR 0x09 then [CHR 0x5C, CHR ''t'']
      else if c = CHR 0x0A then [CHR 0x5C, CHR ''n'']
      else if c = CHR 0x0C then [CHR 0x5C, CHR ''f'']
      else if c = CHR 0x0D then [CHR 0x5C, CHR ''r'']
      else if (of_char c :: nat) < 32
        then [CHR 0x5C, CHR ''u'', CHR ''0'', CHR ''0'',
              digit_char (of_char c div 16), digit_char (of_char c mod 16)]
      else [c])"

definition quote :: "string \<Rightarrow> string" where
  "quote s = [CHR 0x22] @ concat (map escape_char s) @ [CHR 0x22]"

text \<open>The order in which the properties of an object are listed: the array indices
  first, in ascending order, then the other keys in the order of their insertion. An array
  index is a key that is the decimal numeral, without a leading zero, of a number below
  \<open>2 ^ 32 - 1\<close>.\<close>

definition index_value :: "string \<Rightarrow> nat" where
  "index_value k = foldl (\<lambda>n ch. 10 * n + (of_char ch - 48)) 0 k"

definition is_index :: "string \<Rightarrow> bool" where
  "is_index k =
     (k \<noteq> [] \<and> list_all (\<lambda>ch. 48 \<le> (of_char ch :: nat) \<and> (of_char ch :: nat) \<le> 57) k
      \<and> (k = ''0'' \<or> hd k \<noteq> CHR ''0'') \<and> index_value k < 4294967295)"

definition own_properties :: "(string \<times> 'a) list \<Rightarrow> (string \<times> 'a) list" where
  "own_properties kvs =
     sort_key (\<lambda>entry. index_value (fst entry)) (filter (\<lambda>entry. is_index (fst entry)) kvs)
     @ filter (\<lambda>entry. \<not> is_index (fst entry)) kvs"

text \<open>\<open>serialize\<close> is \<open>JSON.stringify\<close> below the top level: an \<open>undefined\<close>
  array element prints as \<open>null\<close>, an \<open>undefined\<close> member of an object is left out,
  and the members that are left are printed in the order of the object's properties.\<close>

fun serialize :: "json \<Rightarrow> string"
  and serialize_elems :: "json list \<Rightarrow> string list"
  and serialize_members :: "(string \<times> json) list \<Rightarrow> (string \<times> string) list" where
  "serialize JUndefined = ''null''"
| "serialize JNull = ''null''"
| "serialize (JBool b) = (if b then ''true'' else ''false'')"
| "serialize (JNum n) = show_int n"
| "serialize (JStr s) = quote s"
| "serialize (JArr xs) = ''['' @ join_with '','' (serialize_elems xs) @ '']''"
| "serialize (JObj kvs) =
     ''{'' @ join_with '','' (map (\<lambda>member. quote (fst member) @ '':'' @ snd member)
                               (own_properties (serialize_members kvs))) @ ''}''"
| "serialize_elems [] = []"
| "serialize_elems (x # xs) = serialize x # serialize_elems xs"
| "serialize_members [] = []"
| "serialize_members ((k, JUndefined) # kvs) = serialize_members kvs"
| "serialize_members ((k, v) # kvs) = (k, serialize v) # serialize_members kvs"

text \<open>\<open>JSON.stringify(v)\<close>: a string, or \<open>undefined\<close> for \<open>undefined\<close>.\<close>

definition JSON_stringify :: "json \<Rightarrow> json" where
  "JSON_stringify v = (if v = JUndefined then JUndefined else JStr (serialize v))"

section \<open>The content hash\<close>

subsection \<open>SHA-256\<close>

text \<open>
  \<open>crypto.createHash('sha256')\<close> is the SHA-256 of FIPS 180-4, written here on 32-bit
  words as naturals below \<open>2 ^ 32\<close> with the wrap-around explicit in \<open>add32\<close>.
  The message schedule is kept as a window of sixteen words that slides one word per round.
  The round constants and the initial hash value are given in decimal.
\<close>

definition K256 :: "nat list" where
  "K256 = [1116352408, 1899447441, 3049323471, 3921009573, 961987163, 1508970993,
           2453635748, 2870763221, 3624381080, 310598401, 607225278, 1426881987,
           1925078388, 2162078206, 2614888103, 3248222580, 3835390401, 4022224774,
           264347078, 604807628, 770255983, 1249150122, 1555081692, 1996064986,
           2554220882, 2821834349, 2952996808, 3210313671, 3336571891, 3584528711,
           113926993, 338241895, 666307205, 773529912, 1294757372, 1396182291,
           1695183700, 1986661051, 2177026350, 2456956037, 2730485921, 2820302411,
           3259730800, 3345764771, 3516065817, 3600352804, 4094571909, 275423344,
           430227734, 506948616, 659060556, 883997877, 958139571, 1322822218,
           1537002063, 1747873779, 1955562222, 2024104815, 2227730452, 2361852424,
           2428436474, 2756734187, 3204031479, 3329325298]"

definition H256 :: "nat list" where
  "H256 = [1779033703, 3144134277, 1013904242, 2773480762, 1359893119, 2600822924, 528734635, 1541459225]"

definition add32 :: "nat \<Rightarrow> nat \<Rightarrow> nat" where
  "add32 x y = (x + y) mod 4294967296"

definition rotr :: "nat \<Rightarrow> nat \<Rightarrow> nat" where
  "rotr n x = x div 2 ^ n + (x mod 2 ^ n) * 2 ^ (32 - n)"

definition ssig0 :: "nat \<Rightarrow> nat" where
  "ssig0 x = rotr 7 x XOR rotr 18 x XOR x div 2 ^ 3"

definition ssig1 :: "nat \<Rightarrow> nat" where
  "ssig1 x = rotr 17 x XOR rotr 19 x XOR x div 2 ^ 10"

definition bsig0 :: "nat \<Rightarrow> nat" where
  "bsig0 x = rotr 2 x XOR rotr 13 x XOR rotr 22 x"

definition bsig1 :: "nat \<Rightarrow> nat" where
  "bsig1 x = rotr 6 x XOR rotr 11 x XOR rotr 25 x"

definition choice32 :: "nat \<Rightarrow> nat \<Rightarrow> nat \<Rightarrow> nat" where
  "choice32 e f g = (e AND f) XOR ((e XOR 4294967295) AND g)"

definition majority32 :: "nat \<Rightarrow> nat \<Rightarrow> nat \<Rightarrow> nat" where
  "majority32 a b c = (a AND b) XOR (a AND c) XOR (b AND c)"

fun zeros :: "nat \<Rightarrow> nat list" where
  "zeros n = (if n = 0 then [] else 0 # zeros (n - 1))"

declare zeros.simps [simp del]

definition be64 :: "nat \<Rightarrow> nat list" where
  "be64 n = map (\<lambda>i. (n div 256 ^ i) mod 256) [7, 6, 5, 4, 3, 2, 1, 0]"

definition sha_pad :: "nat list \<Rightarrow> nat list" where
  "sha_pad bs = bs @ [128] @ zeros ((119 - length bs mod 64) mod 64) @ be64 (8 * length bs)"

fun be_words :: "nat list \<Rightarrow> nat list" where
  "be_words (a # b # c # d # r) = (((a * 256 + b) * 256 + c) * 256 + d) # be_words r"
| "be_words r = []"

fun round_upd :: "nat \<Rightarrow> nat \<Rightarrow> nat list \<Rightarrow> nat list" where
  "round_upd t1 t2 [a, b, c, d, e, f, g, h] = [add32 t1 t2, a, b, c, add32 d t1, e, f, g]"
| "round_upd t1 t2 s = s"

fun round_step :: "nat \<Rightarrow> nat \<Rightarrow> nat list \<Rightarrow> nat list" where
  "round_step k w [a, b, c, d, e, f, g, h] =
     round_upd (add32 (add32 (add32 (add32 h (bsig1 e)) (choice32 e f g)) k) w) (add32 (bsig0 a) (majority32 a b c))
       [a, b, c, d, e, f, g, h]"
| "round_step k w s = s"

fun rounds :: "nat list \<Rightarrow> nat list \<Rightarrow> nat list \<Rightarrow> nat list" where
  "rounds (k # ks) [w0, w1, w2, w3, w4, w5, w6, w7, w8, w9, w10, w11, w12, w13, w14, w15] s =
     rounds ks [w1, w2, w3, w4, w5, w6, w7, w8, w9, w10, w11, w12, w13, w14, w15,
                add32 (add32 (add32 (ssig1 w14) w9) (ssig0 w1)) w0] (round_step k w0 s)"
| "rounds ks ws s = s"

definition compress :: "nat list \<Rightarrow> nat list \<Rightarrow> nat list" where
  "compress hs blk = map2 add32 hs (rounds K256 blk hs)"

fun blocks :: "nat list \<Rightarrow> nat list \<Rightarrow> nat list" where
  "blocks hs (w0 # w1 # w2 # w3 # w4 # w5 # w6 # w7 # w8 # w9 # w10 # w11 # w12 # w13 # w14 # w15 # r) =
     blocks (compress hs [w0, w1, w2, w3, w4, w5, w6, w7, w8, w9, w10, w11, w12, w13, w14, w15]) r"
| "blocks hs r = hs"

definition sha256 :: "nat list \<Rightarrow> nat list" where
  "sha256 bs = blocks H256 (be_words (sha_pad bs))"

definition hex32 :: "nat \<Rightarrow> string" where
  "hex32 w = map (\<lambda>i. digit_char ((w div 16 ^ i) mod 16)) [7, 6, 5, 4, 3, 2, 1, 0]"

text \<open>\<open>.update(content).digest('hex')\<close>: the digest of the bytes of the string, in
  lower-case hexadecimal.\<close>

definition sha256_hex :: "string \<Rightarrow> string" where
  "sha256_hex s = concat (map hex32 (sha256 (map of_char s)))"

subsection \<open>calculateHash and countRecords\<close>

text \<open>
  \<open>calculateHash(data)\<close> hashes a string as it is and anything else through
  \<open>JSON.stringify\<close>. For \<open>undefined\<close> the serialization is \<open>undefined\<close>, which
  \<open>update\<close> refuses with a TypeError.
\<close>

definition calculateHash :: "json \<Rightarrow> error + string" where
  "calculateHash data =
     (let content = (case data of JStr s \<Rightarrow> data | _ \<Rightarrow> JSON_stringify data)
      in case content of
           JStr s \<Rightarrow> Inr (sha256_hex s)
         | _ \<Rightarrow> Inl (Error (''The '' @ [CHR 0x22] @ ''data'' @ [CHR 0x22]
               @ '' argument must be of type string or an instance of Buffer, TypedArray, or DataView. Received undefined'')))"

text \<open>
  \<open>countRecords\<close>: the \<open>forEach\<close> over the accounts adds the length of every
  \<open>list\<close> that is an array; reading \<open>account.list\<close> of a \<open>null\<close> account throws.
\<close>

fun count_accounts :: "json list \<Rightarrow> int \<Rightarrow> error + int" where
  "count_accounts [] count = Inr count"
| "count_accounts (account # accounts) count =
     (if nullish account then Inl (cannot_read account ''list'')
      else if truthy (get account ''list'') \<and> is_array (get account ''list'')
        then count_accounts accounts (count + int (length (elems (get account ''list''))))
      else count_accounts accounts count)"

definition countRecords :: "json \<Rightarrow> error + int" where
  "countRecords data =
     (if truthy data \<and> truthy (get data ''hk4e'') \<and> is_array (get data ''hk4e'')
        then count_accounts (elems (get data ''hk4e'')) 0
      else if truthy data \<and> truthy (get data ''list'') \<and> is_array (get data ''list'')
        then Inr (int (length (elems (get data ''list''))))
      else Inr 0)"

section \<open>The environment of the sync core\<close>

text \<open>
  What the sync code calls but does not define is a parameter: the document generators and
  importers (module \<open>UIGFJson\<close>), the clock, the file system's faults, the HTTP exchange,
  \<open>JSON.parse\<close> and the URL parser. The type \<open>'s\<close> is the local wish-history store that
  the generators read and the importers write. Of an HTTP exchange (method, URL, body) the
  environment gives the outcome (\<open>https_request\<close>), the milliseconds from the request to
  that outcome (\<open>elapsed\<close>), and whether the server at the URL leaves the connection open
  after its response for as long as the client's idle timer runs (\<open>stays_open\<close>).
\<close>

record config =
  googleAppsScriptUrl :: string
  cloudSyncClientId :: json
  uigfVersion :: json
  uigfAllAccounts :: json
  googleDriveLastSync :: json

text \<open>One HTTP exchange ends with the request's \<open>error\<close> event, with the 30 second
  timer before any response has come, or with a response: its status, its \<open>Location\<close>
  header and its body.\<close>

datatype http_result =
    Failed error
  | TimedOut
  | Response int "string option" string

datatype fs_op = EnsureDir | WriteJson string | ReadDir | Remove string

record 's env =
  generateUigf30Json :: "'s \<Rightarrow> error + json"
  generateUigf41Json :: "json \<Rightarrow> 's \<Rightarrow> error + json"
  importUgif30Json :: "json \<Rightarrow> 's \<Rightarrow> error option \<times> 's"
  importUgif41Json :: "json \<Rightarrow> 's \<Rightarrow> error option \<times> 's"
  config_save :: "config \<Rightarrow> error option"
  randomUUID :: string
  Date_now :: "nat \<Rightarrow> int"
  toISOString :: "int \<Rightarrow> string"
  toLocaleString :: "json \<Rightarrow> string"
  URL_valid :: "string \<Rightarrow> bool"
  URL_resolve :: "string \<Rightarrow> string \<Rightarrow> string option"
  https_request :: "string \<Rightarrow> string \<Rightarrow> string option \<Rightarrow> http_result"
  elapsed :: "string \<Rightarrow> string \<Rightarrow> string option \<Rightarrow> nat"
  stays_open :: "string \<Rightarrow> bool"
  JSON_parse :: "string \<Rightarrow> error + json"
  string_gt :: "string \<Rightarrow> int \<Rightarrow> bool"
  userDataPath :: string
  path_join :: "string \<Rightarrow> string \<Rightarrow> string"
  fs_fails :: "fs_op \<Rightarrow> bool"
  APP_VERSION :: string

text \<open>What the code can observe of a run is kept in a trace: a backup that has returned,
  a request handed to the transport, an importer that is invoked, a configuration that
  has been saved.\<close>

datatype event =
    BackupCompleted json
  | Requested json
  | ImportInvoked string json
  | ConfigSaved config

text \<open>The mutable state: the configuration object, the local store, the directory
  \<open>cloud-sync-backups\<close> (file name and content), how often the clock was read, and the
  trace.\<close>

record 's world =
  cfg :: config
  store :: 's
  backupDir :: "(string \<times> json) list"
  ticks :: nat
  trace :: "event list"

definition SCHEMA_VERSION :: int where
  "SCHEMA_VERSION = 1"

definition log_event :: "event \<Rightarrow> 's world \<Rightarrow> 's world" where
  "log_event ev w = w\<lparr>trace := trace w @ [ev]\<rparr>"

text \<open>\<open>Date.now()\<close> and \<open>new Date()\<close>: the \<open>k\<close>-th reading of the clock.\<close>

definition read_clock :: "'s env \<Rightarrow> 's world \<Rightarrow> int \<times> 's world" where
  "read_clock env w = (Date_now env (ticks w), w\<lparr>ticks := Suc (ticks w)\<rparr>)"

text \<open>Modelled from the spec: \<open>config.save()\<close> of the configuration module, which is not
  among the sources. The spec treats it as a key-value store with load/save semantics;
  whether a save is rejected is the parameter \<open>config_save\<close>, and a save that went through
  is recorded with the configuration it wrote.\<close>

definition save_config :: "'s env \<Rightarrow> 's world \<Rightarrow> error option \<times> 's world" where
  "save_config env w =
     (case config_save env (cfg w) of
        Some e \<Rightarrow> (Some e, w)
      | None \<Rightarrow> (None, log_event (ConfigSaved (cfg w)) w))"

text \<open>\<open>v > n\<close> with the coercion of \<open>v\<close> to a number; for a string (and an array or
  object, through its string) the conversion is the language's, the parameter
  \<open>string_gt\<close>.\<close>

definition js_gt :: "(string \<Rightarrow> int \<Rightarrow> bool) \<Rightarrow> json \<Rightarrow> int \<Rightarrow> bool" where
  "js_gt str_gt v n =
     (case v of
        JUndefined \<Rightarrow> False
      | JNull \<Rightarrow> 0 > n
      | JBool b \<Rightarrow> (if b then 1 else 0) > n
      | JNum m \<Rightarrow> m > n
      | _ \<Rightarrow> str_gt (ToString v) n)"

definition try_catch :: "error + 'a \<Rightarrow> (error \<Rightarrow> error + 'a) \<Rightarrow> error + 'a" where
  "try_catch body handler = (case body of Inl e \<Rightarrow> handler e | Inr v \<Rightarrow> Inr v)"

section \<open>The transport client\<close>

text \<open>
  \<open>makeRequest(payload, requestUrl)\<close> returns a promise. \<open>exchange\<close> is what one call
  does with its own request, and after how many milliseconds: it settles the promise, with a
  rejection (\<open>Inl\<close>) or with the parsed response (\<open>Inr\<close>); or, on a 3xx response with
  a non-empty \<open>Location\<close>, it calls \<open>makeRequest\<close> for the resolved URL and leaves the
  promise to that call; or \<open>new URL(location, base)\<close> throws, inside the response
  callback, where no \<open>try\<close> and no promise catches it: the exception is an uncaught
  exception of the process and the promise stays pending.

  Every request carries the idle timer of \<open>req.setTimeout(30000, ...)\<close>, whose callback
  rejects the promise of the call with \<open>'Request timeout'\<close>. The 3xx response is never
  read, so its request is not finished when the next call starts: as long as the connection
  stays open the timer is still armed, and it fires 30 seconds after the response whatever
  the calls that follow the redirect are doing. \<open>Redirected\<close> and \<open>Uncaught\<close> carry
  that timer.
\<close>

definition request_timeout :: error where
  "request_timeout = Error ''Request timeout''"

definition idle_timer :: "'s env \<Rightarrow> string \<Rightarrow> nat option" where
  "idle_timer env url = (if stays_open env url then Some 30000 else None)"

datatype hop =
    Settled "error + json"
  | Redirected string "nat option"
  | Uncaught error "nat option"

definition exchange :: "'s env \<Rightarrow> config \<Rightarrow> json \<Rightarrow> string option \<Rightarrow> nat \<times> hop" where
  "exchange env c payload requestUrl =
     (let given = (case requestUrl of None \<Rightarrow> False | Some u \<Rightarrow> u \<noteq> []) in
      if googleAppsScriptUrl c = [] \<and> \<not> given
        then (0, Settled (Inl (Error ''Please set Google Apps Script URL in settings.'')))
      else
        let targetUrlStr = (if given then the requestUrl else googleAppsScriptUrl c);
            isRedirect = given;
            method = (if isRedirect then ''GET'' else ''POST'');
            body = (if truthy payload \<and> \<not> isRedirect then Some (serialize payload) else None)
        in if \<not> URL_valid env targetUrlStr then (0, Settled (Inl (Error ''Invalid URL'')))
           else
             (elapsed env method targetUrlStr body,
              case https_request env method targetUrlStr body of
                Failed e \<Rightarrow> Settled (Inl e)
              | TimedOut \<Rightarrow> Settled (Inl request_timeout)
              | Response statusCode location responseBody \<Rightarrow>
                  if 300 \<le> statusCode \<and> statusCode < 400 \<and> location \<noteq> None \<and> location \<noteq> Some []
                  then (case URL_resolve env (the location) targetUrlStr of
                          None \<Rightarrow> Uncaught (Error ''Invalid URL'') (idle_timer env targetUrlStr)
                        | Some newUrl \<Rightarrow> Redirected newUrl (idle_timer env targetUrlStr))
                  else if 200 \<le> statusCode \<and> statusCode < 300
                  then (case JSON_parse env responseBody of
                          Inl jsonErr \<Rightarrow>
                            Settled (Inl (Error (''Failed to parse JSON response: '' @ message jsonErr)))
                        | Inr v \<Rightarrow> Settled (Inr v))
                  else Settled (Inl (Error (''Request failed with status '' @ show_int statusCode
                                              @ '': '' @ responseBody)))))"

text \<open>
  The promise of a call settles once, with whatever comes first. For a call that follows a
  redirect this is a race between the call for the new URL and the timers still armed on
  the requests before it. \<open>armed\<close> is the time left until the first of those timers
  fires (\<open>None\<close> when no timer is armed); a tie goes to the timer.
\<close>

definition fired :: "nat option \<Rightarrow> nat \<Rightarrow> bool" where
  "fired armed took = (case armed of None \<Rightarrow> False | Some t \<Rightarrow> t \<le> took)"

definition still_armed :: "nat option \<Rightarrow> nat \<Rightarrow> nat option \<Rightarrow> nat option" where
  "still_armed armed took timer =
     (case (armed, timer) of
        (None, own) \<Rightarrow> own
      | (Some t, None) \<Rightarrow> Some (t - took)
      | (Some t, Some own) \<Rightarrow> Some (min (t - took) own))"

text \<open>The recursion of \<open>makeRequest\<close>: a redirect is followed by a fresh call
  \<open>makeRequest(null, newUrl)\<close> whose outcome is handed through
  (\<open>.then(resolve).catch(reject)\<close>). Nothing counts the hops. \<open>None\<close> is a promise that
  never settles.\<close>

partial_function (option) makeRequest_within ::
  "'s env \<Rightarrow> config \<Rightarrow> json \<Rightarrow> string option \<Rightarrow> nat option \<Rightarrow> (error + json) option" where
  "makeRequest_within env c payload requestUrl armed =
     (if fired armed (fst (exchange env c payload requestUrl)) then Some (Inl request_timeout)
      else
        (case snd (exchange env c payload requestUrl) of
           Settled outcome \<Rightarrow> Some outcome
         | Redirected newUrl timer \<Rightarrow>
             makeRequest_within env c JNull (Some newUrl)
               (still_armed armed (fst (exchange env c payload requestUrl)) timer)
         | Uncaught e timer \<Rightarrow>
             (if still_armed armed (fst (exchange env c payload requestUrl)) timer = None then None
              else Some (Inl request_timeout))))"

text \<open>A call from outside starts with no timer armed.\<close>

definition makeRequest :: "'s env \<Rightarrow> config \<Rightarrow> json \<Rightarrow> string option \<Rightarrow> (error + json) option" where
  "makeRequest env c payload requestUrl = makeRequest_within env c payload requestUrl None"

text \<open>The same chain of exchanges, cut off after \<open>n\<close> of them.\<close>

fun follow ::
  "nat \<Rightarrow> 's env \<Rightarrow> config \<Rightarrow> json \<Rightarrow> string option \<Rightarrow> nat option \<Rightarrow> (error + json) option" where
  "follow 0 env c payload requestUrl armed = None"
| "follow (Suc n) env c payload requestUrl armed =
     (if fired armed (fst (exchange env c payload requestUrl)) then Some (Inl request_timeout)
      else
        (case snd (exchange env c payload requestUrl) of
           Settled outcome \<Rightarrow> Some outcome
         | Redirected newUrl timer \<Rightarrow>
             follow n env c JNull (Some newUrl)
               (still_armed armed (fst (exchange env c payload requestUrl)) timer)
         | Uncaught e timer \<Rightarrow>
             (if still_armed armed (fst (exchange env c payload requestUrl)) timer = None then None
              else Some (Inl request_timeout))))"

section \<open>The metadata service\<close>

text \<open>\<open>getCloudMetadata\<close>: reading \<open>response.status\<close> throws when the response is the
  JSON value \<open>null\<close>.\<close>

definition getCloudMetadata :: "'s env \<Rightarrow> config \<Rightarrow> (error + json) option" where
  "getCloudMetadata env c =
     (case makeRequest env c (JObj [(''action'', JStr ''metadata'')]) None of
        None \<Rightarrow> None
      | Some (Inl e) \<Rightarrow> Some (Inl e)
      | Some (Inr response) \<Rightarrow>
          if nullish response then Some (Inl (cannot_read response ''status''))
          else if strict_eq (get response ''status'') (JStr ''error'')
            then Some (Inl (new_Error (get response ''error'')))
          else Some (Inr response))"

text \<open>The block that four functions of the source repeat: the generator that the
  configured UIGF version selects.\<close>

definition generateData :: "'s env \<Rightarrow> 's world \<Rightarrow> error + json" where
  "generateData env w =
     (if strict_eq (uigfVersion (cfg w)) (JStr ''3.0'')
      then generateUigf30Json env (store w)
      else generateUigf41Json env (uigfAllAccounts (cfg w)) (store w))"

definition no_local_data :: json where
  "no_local_data =
     JObj [(''exists'', JBool False), (''localTimestamp'', JNull), (''localHash'', JNull),
           (''recordCount'', JNum 0), (''data'', JNull)]"

text \<open>\<open>getLocalMetadata\<close>: whatever is thrown inside its \<open>try\<close> ends in the \<open>catch\<close>
  that returns the zeroed metadata. \<open>config.googleDriveLastSync || Date.now()\<close> reads the
  clock only when no sync time is known.\<close>

definition getLocalMetadata :: "'s env \<Rightarrow> 's world \<Rightarrow> json \<times> 's world" where
  "getLocalMetadata env w =
     (case generateData env w of
        Inl e \<Rightarrow> (no_local_data, w)
      | Inr data \<Rightarrow>
          let content = JSON_stringify data;
              (localTimestamp, w1) =
                (if truthy (googleDriveLastSync (cfg w)) then (googleDriveLastSync (cfg w), w)
                 else (JNum (fst (read_clock env w)), snd (read_clock env w)))
          in case calculateHash content of
               Inl e \<Rightarrow> (no_local_data, w1)
             | Inr localHash \<Rightarrow>
                 (case countRecords data of
                    Inl e \<Rightarrow> (no_local_data, w1)
                  | Inr recordCount \<Rightarrow>
                      (JObj [(''exists'', JBool True), (''localTimestamp'', localTimestamp),
                             (''localHash'', JStr localHash), (''recordCount'', JNum recordCount),
                             (''data'', data)], w1)))"

section \<open>The backup manager\<close>

definition startsWith :: "string \<Rightarrow> string \<Rightarrow> bool" where
  "startsWith f p = (take (length p) f = p)"

text \<open>\<open>.replace(/[:.]/g, '-')\<close> on the ISO time stamp.\<close>

definition replace_colon_dot :: "string \<Rightarrow> string" where
  "replace_colon_dot s = map (\<lambda>c. if c = CHR '':'' \<or> c = CHR ''.'' then CHR ''-'' else c) s"

definition backupFileName :: "string \<Rightarrow> string" where
  "backupFileName timestamp = ''backup_'' @ timestamp @ ''.json''"

text \<open>The stamp of the backup that starts when the clock has been read \<open>k\<close> times.\<close>

definition backup_stamp :: "'s env \<Rightarrow> nat \<Rightarrow> string" where
  "backup_stamp env k = replace_colon_dot (toISOString env (Date_now env k))"

text \<open>The loop \<open>for (let i = 10; i < backups.length; i++) await fs.remove(...)\<close>, run on
  the files it is to remove; it stops at the first removal that throws.\<close>

fun remove_files :: "'s env \<Rightarrow> string list \<Rightarrow> (string \<times> json) list \<Rightarrow> bool \<times> (string \<times> json) list" where
  "remove_files env [] dir = (True, dir)"
| "remove_files env (f # fs) dir =
     (if fs_fails env (Remove f) then (False, dir)
      else remove_files env fs (filter (\<lambda>entry. fst entry \<noteq> f) dir))"

text \<open>\<open>files.filter(f => f.startsWith('backup_')).sort().reverse()\<close>: the default sort
  of strings is the lexicographic one.\<close>

definition listed_backups :: "(string \<times> json) list \<Rightarrow> string list" where
  "listed_backups dir = rev (sort (filter (\<lambda>f. startsWith f ''backup_'') (map fst dir)))"

text \<open>The \<open>try\<close> block of \<open>createLocalBackup\<close> with its \<open>catch\<close>, which turns every
  failure into \<open>null\<close>; the effects that came before the failure stay.\<close>

definition backup_attempt :: "'s env \<Rightarrow> 's world \<Rightarrow> json \<times> 's world" where
  "backup_attempt env w =
     (let backupDirPath = path_join env (userDataPath env) ''cloud-sync-backups'' in
      if fs_fails env EnsureDir then (JNull, w)
      else
        let (now, w1) = read_clock env w;
            timestamp = replace_colon_dot (toISOString env now);
            backupPath = path_join env backupDirPath (backupFileName timestamp)
        in case generateData env w1 of
             Inl e \<Rightarrow> (JNull, w1)
           | Inr data \<Rightarrow>
               if fs_fails env (WriteJson (backupFileName timestamp)) then (JNull, w1)
               else
                 let w2 = w1\<lparr>backupDir := AList.update (backupFileName timestamp) data (backupDir w1)\<rparr>
                 in if fs_fails env ReadDir then (JNull, w2)
                    else
                      let backups = listed_backups (backupDir w2);
                          (removed, dir) = remove_files env (drop 10 backups) (backupDir w2)
                      in if removed then (JStr backupPath, w2\<lparr>backupDir := dir\<rparr>)
                         else (JNull, w2\<lparr>backupDir := dir\<rparr>))"

definition createLocalBackup :: "'s env \<Rightarrow> 's world \<Rightarrow> json \<times> 's world" where
  "createLocalBackup env w =
     (let (backupPath, w') = backup_attempt env w
      in (backupPath, log_event (BackupCompleted backupPath) w'))"

section \<open>The sync orchestrator\<close>


text \<open>The end of both transfers: \<open>config.googleDriveLastSync = Date.now()\<close>,
  \<open>await config.save()\<close>, \<open>return response\<close>.\<close>

definition record_sync :: "'s env \<Rightarrow> json \<Rightarrow> 's world \<Rightarrow> (error + json) \<times> 's world" where
  "record_sync env response w =
     (let (now, w1) = read_clock env w;
          w2 = w1\<lparr>cfg := (cfg w1)\<lparr>googleDriveLastSync := JNum now\<rparr>\<rparr>
      in case save_config env w2 of
           (Some e, w3) \<Rightarrow> (Inl e, w3)
         | (None, w3) \<Rightarrow> (Inr response, w3))"


text \<open>One call of an importer: the call is recorded, then the importer does to the
  store what it does, also when it throws.\<close>

definition call_import ::
  "string \<Rightarrow> (json \<Rightarrow> 's \<Rightarrow> error option \<times> 's) \<Rightarrow> json \<Rightarrow> 's world \<Rightarrow> error option \<times> 's world" where
  "call_import name importer data w =
     (let w1 = log_event (ImportInvoked name data) w;
          (failure, s') = importer data (store w1)
      in (failure, w1\<lparr>store := s'\<rparr>))"

text \<open>The dispatch on the shape of the payload (\<open>if (data && data.info) ...\<close>).\<close>

definition import_payload :: "'s env \<Rightarrow> json \<Rightarrow> 's world \<Rightarrow> error option \<times> 's world" where
  "import_payload env data w =
     (if truthy data \<and> truthy (get data ''info'') then
        if truthy (get data ''hk4e'') then call_import ''importUgif41Json'' (importUgif41Json env) data w
        else if truthy (get data ''list'') then call_import ''importUgif30Json'' (importUgif30Json env) data w
        else (Some (Error ''Invalid data format''), w)
      else (Some (Error ''Invalid data format: missing info field''), w))"

text \<open>\<open>downloadFromCloud\<close> from \<open>const data = response.payload\<close> on.\<close>

definition import_response :: "'s env \<Rightarrow> json \<Rightarrow> 's world \<Rightarrow> (error + json) \<times> 's world" where
  "import_response env response w =
     (case import_payload env (get response ''payload'') w of
        (Some e, w1) \<Rightarrow> (Inl e, w1)
      | (None, w1) \<Rightarrow> record_sync env response w1)"

definition incompatible_version :: error where
  "incompatible_version = Error ''Incompatible data format version. Please update the application.''"

definition downloadFromCloud :: "'s env \<Rightarrow> 's world \<Rightarrow> ((error + json) \<times> 's world) option" where
  "downloadFromCloud env w =
     (let request = JObj [(''action'', JStr ''download'')];
          w1 = log_event (Requested request) w
      in case makeRequest env (cfg w1) request None of
           None \<Rightarrow> None
         | Some (Inl e) \<Rightarrow> Some (Inl e, w1)
         | Some (Inr response) \<Rightarrow>
             if nullish response then Some (Inl (cannot_read response ''status''), w1)
             else if strict_eq (get response ''status'') (JStr ''error'')
               then Some (Inl (new_Error (get response ''error'')), w1)
             else if \<not> truthy (get response ''payload'')
               then Some (Inl (Error ''No data payload in response''), w1)
             else if truthy (get response ''schemaVersion'')
                     \<and> js_gt (string_gt env) (get response ''schemaVersion'') SCHEMA_VERSION
               then Some (Inl incompatible_version, w1)
             else Some (import_response env response w1))"

definition formatTimestamp :: "'s env \<Rightarrow> json \<Rightarrow> json" where
  "formatTimestamp env ts = (if \<not> truthy ts then JStr ''Never'' else JStr (toLocaleString env ts))"

section \<open>The IPC handlers\<close>

text \<open>The object of every outer \<open>catch (e)\<close>: \<open>{ status: 'error', error: e.message }\<close>.\<close>

definition error_result :: "error \<Rightarrow> json" where
  "error_result e = JObj [(''status'', JStr ''error''), (''error'', JStr (message e))]"

text \<open>The two \<open>.catch(e => ({ exists: false, error: e.message }))\<close> of the comparison.\<close>

definition degrade :: "error + json \<Rightarrow> json" where
  "degrade r =
     (case r of
        Inl e \<Rightarrow> JObj [(''exists'', JBool False), (''error'', JStr (message e))]
      | Inr meta \<Rightarrow> meta)"

definition comparison :: "'s env \<Rightarrow> json \<Rightarrow> json \<Rightarrow> json" where
  "comparison env cloudMeta localMeta =
     JObj [(''status'', JStr ''ok''),
           (''cloud'', JObj [(''exists'', js_or (get cloudMeta ''exists'') (JBool False)),
                             (''timestamp'', get cloudMeta ''cloudTimestamp''),
                             (''timestampFormatted'', formatTimestamp env (get cloudMeta ''cloudTimestamp'')),
                             (''hash'', get cloudMeta ''cloudHash''),
                             (''recordCount'', js_or (get cloudMeta ''recordCount'') (JNum 0))]),
           (''local'', JObj [(''exists'', js_or (get localMeta ''exists'') (JBool False)),
                             (''timestamp'', get localMeta ''localTimestamp''),
                             (''timestampFormatted'', formatTimestamp env (get localMeta ''localTimestamp'')),
                             (''hash'', get localMeta ''localHash''),
                             (''recordCount'', js_or (get localMeta ''recordCount'') (JNum 0))]),
           (''hasConflict'',
              js_and (js_and (get cloudMeta ''exists'') (get localMeta ''exists''))
                     (JBool (\<not> strict_eq (get cloudMeta ''cloudHash'') (get localMeta ''localHash''))))]"

text \<open>The two members of the \<open>Promise.all\<close>: each fetch with its own \<open>catch\<close>.
  \<open>getLocalMetadata\<close> never rejects, so its \<open>catch\<close> never runs.\<close>

definition cloudMeta_of :: "'s env \<Rightarrow> 's world \<Rightarrow> json option" where
  "cloudMeta_of env w = map_option degrade (getCloudMetadata env (cfg w))"

definition localMeta_of :: "'s env \<Rightarrow> 's world \<Rightarrow> json \<times> 's world" where
  "localMeta_of env w = (degrade (Inr (fst (getLocalMetadata env w))), snd (getLocalMetadata env w))"

definition CLOUD_SYNC_GET_METADATA :: "'s env \<Rightarrow> 's world \<Rightarrow> ((error + json) \<times> 's world) option" where
  "CLOUD_SYNC_GET_METADATA env w =
     (case cloudMeta_of env w of
        None \<Rightarrow> None
      | Some cloudMeta \<Rightarrow>
          let (localMeta, w') = localMeta_of env w
          in Some (try_catch (Inr (comparison env cloudMeta localMeta)) (\<lambda>e. Inr (error_result e)), w'))"


definition CLOUD_SYNC_DOWNLOAD :: "'s env \<Rightarrow> 's world \<Rightarrow> ((error + json) \<times> 's world) option" where
  "CLOUD_SYNC_DOWNLOAD env w =
     (let (backupPath, w1) = createLocalBackup env w
      in case downloadFromCloud env w1 of
           None \<Rightarrow> None
         | Some (outcome, w2) \<Rightarrow>
             Some (try_catch
                     (try_catch
                        (case outcome of
                           Inl e \<Rightarrow> Inl e
                         | Inr result \<Rightarrow>
                             Inr (JObj [(''status'', JStr ''ok''),
                                        (''cloudTimestamp'', get result ''cloudTimestamp''),
                                        (''recordCount'', get result ''recordCount''),
                                        (''backupPath'', backupPath)]))
                        (\<lambda>importError.
                             Inr (JObj [(''status'', JStr ''error''),
                                        (''error'', JStr (message importError)),
                                        (''backupPath'', backupPath),
                                        (''backupPreserved'', JBool True)])))
                     (\<lambda>e. Inr (error_result e)), w2))"

subsection \<open>The legacy handlers\<close>




text \<open>The result shape of the sync handlers: \<open>{status: 'ok', ...}\<close> or
  \<open>{status: 'error', error: <message>, ...}\<close>.\<close>

fun is_str :: "json \<Rightarrow> bool" where
  "is_str (JStr s) = True"
| "is_str v = False"


text \<open>An event that leaves the persisted sync time alone: anything but a save of a
  configuration with another \<open>googleDriveLastSync\<close>.\<close>

fun keeps_sync_time :: "json \<Rightarrow> event \<Rightarrow> bool" where
  "keeps_sync_time t (ConfigSaved c) = (googleDriveLastSync c = t)"
| "keeps_sync_time t ev = True"

section \<open>A run of backups\<close>

text \<open>Backups taken one after the other. Between two of them anything may happen to the
  rest of the state (each backup starts in the world the list gives), but the backup
  directory is touched by nothing else. The run stops with \<open>None\<close> at a backup that
  returns \<open>null\<close>.\<close>

fun backup_run :: "'s env \<Rightarrow> 's world list \<Rightarrow> (string \<times> json) list \<Rightarrow> (string \<times> json) list option" where
  "backup_run env [] dir = Some dir"
| "backup_run env (w # ws) dir =
     (case createLocalBackup env (w\<lparr>backupDir := dir\<rparr>) of
        (JStr backupPath, w') \<Rightarrow> backup_run env ws (backupDir w')
      | (other, w') \<Rightarrow> None)"

definition backup_files :: "(string \<times> json) list \<Rightarrow> string list" where
  "backup_files dir = filter (\<lambda>f. startsWith f ''backup_'') (map fst dir)"

text \<open>The names of the files that the backups of a run write.\<close>

definition run_names :: "'s env \<Rightarrow> 's world list \<Rightarrow> string list" where
  "run_names env ws = map (\<lambda>w. backupFileName (backup_stamp env (ticks w))) ws"

text \<open>Insertion into a strictly descending list, used to describe the listing
  \<open>sort().reverse()\<close> after one more file.\<close>

fun ins_desc :: "'a::linorder \<Rightarrow> 'a list \<Rightarrow> 'a list" where
  "ins_desc x [] = [x]"
| "ins_desc x (y # ys) = (if y < x then x # y # ys else if x = y then y # ys else y # ins_desc x ys)"

section \<open>The remote store\<close>

text \<open>
  The Apps Script side: one data file in Drive and a folder of backups. The clock, the
  time Drive stamps on a written file, the formatted date of a backup's name, the id of a
  new file and \<open>JSON.parse\<close> are parameters.
\<close>

record gs_file =
  fileContent :: string
  lastUpdated :: int
  fileId :: string

record drive =
  dataFile :: "gs_file option"
  backupFolder :: "(string \<times> string) list option"

record gs_env =
  gs_now :: int
  gs_updated :: int
  gs_formatDate :: string
  gs_newFileId :: string
  gs_parse :: "string \<Rightarrow> error + json"
  gs_string_gt :: "string \<Rightarrow> int \<Rightarrow> bool"

definition FILE_NAME :: string where
  "FILE_NAME = ''genshin-wish-export-data.json''"

definition CURRENT_SCHEMA_VERSION :: int where
  "CURRENT_SCHEMA_VERSION = 1"

text \<open>The script's own \<open>calculateHash\<close>: the SHA-256 bytes of the content, each printed
  as two hexadecimal digits (\<open>byte & 0xFF\<close> undoes the sign of a byte).\<close>

definition gs_calculateHash :: "string \<Rightarrow> string" where
  "gs_calculateHash content = sha256_hex content"

definition createBackupOfFile :: "gs_env \<Rightarrow> gs_file \<Rightarrow> drive \<Rightarrow> drive" where
  "createBackupOfFile g file d =
     d\<lparr>backupFolder :=
          Some ((case backupFolder d of None \<Rightarrow> [] | Some files \<Rightarrow> files)
                @ [(''backup_'' @ gs_formatDate g @ ''_'' @ FILE_NAME, fileContent file)])\<rparr>"

text \<open>The four assignments that stamp the payload before it is stored.\<close>

definition stamp_payload :: "gs_env \<Rightarrow> json \<Rightarrow> json \<Rightarrow> json" where
  "stamp_payload g request payload =
     set_prop
       (set_prop
          (set_prop
             (set_prop payload ''_schemaVersion'' (JNum CURRENT_SCHEMA_VERSION))
             ''_uploadTimestamp'' (JNum (gs_now g)))
          ''_clientId'' (js_or (get request ''clientId'') (JStr ''unknown'')))
       ''_appVersion'' (js_or (get request ''appVersion'') (JStr ''unknown''))"

text \<open>The names of those four members, and a document without them. The script and the
  client have no such function: it is the spec's comparison "modulo server-added provenance
  fields", used to state the round trip.\<close>

definition provenance_fields :: "string list" where
  "provenance_fields = [''_schemaVersion'', ''_uploadTimestamp'', ''_clientId'', ''_appVersion'']"

fun without_provenance :: "json \<Rightarrow> json" where
  "without_provenance (JObj kvs) = JObj (filter (\<lambda>entry. fst entry \<notin> set provenance_fields) kvs)"
| "without_provenance v = v"

definition uploadData :: "gs_env \<Rightarrow> json \<Rightarrow> drive \<Rightarrow> (error + json) \<times> drive" where
  "uploadData g request d =
     (if truthy (get request ''schemaVersion'')
         \<and> js_gt (gs_string_gt g) (get request ''schemaVersion'') CURRENT_SCHEMA_VERSION
      then (Inr (JObj [(''status'', JStr ''error''),
                       (''error'', JStr ''Incompatible schema version. Please update the Apps Script.'')]), d)
      else if \<not> truthy (get request ''payload'')
      then (Inr (JObj [(''status'', JStr ''error''),
                       (''error'', JStr ''Missing payload in upload request'')]), d)
      else
        let payload = stamp_payload g request (get request ''payload'');
            content = serialize payload;
            hash = gs_calculateHash content;
            d1 = (case dataFile d of None \<Rightarrow> d | Some existingFile \<Rightarrow> createBackupOfFile g existingFile d);
            file = (case dataFile d1 of
                      Some existingFile \<Rightarrow> existingFile\<lparr>fileContent := content, lastUpdated := gs_updated g\<rparr>
                    | None \<Rightarrow> \<lparr>fileContent = content, lastUpdated = gs_updated g, fileId = gs_newFileId g\<rparr>);
            d2 = d1\<lparr>dataFile := Some file\<rparr>
        in case countRecords payload of
             Inl e \<Rightarrow> (Inl e, d2)
           | Inr recordCount \<Rightarrow>
               (Inr (JObj [(''status'', JStr ''ok''),
                           (''cloudTimestamp'', JNum (lastUpdated file)),
                           (''cloudHash'', JStr hash),
                           (''recordCount'', JNum recordCount),
                           (''fileId'', JStr (fileId file))]), d2))"

definition downloadData :: "gs_env \<Rightarrow> drive \<Rightarrow> error + json" where
  "downloadData g d =
     (case dataFile d of
        None \<Rightarrow> Inr (JObj [(''status'', JStr ''error''),
                            (''error'', JStr ''No data file found in cloud storage''),
                            (''exists'', JBool False)])
      | Some file \<Rightarrow>
          (case gs_parse g (fileContent file) of
             Inl e \<Rightarrow> Inl e
           | Inr data \<Rightarrow>
               (case countRecords data of
                  Inl e \<Rightarrow> Inl e
                | Inr recordCount \<Rightarrow>
                    if nullish data then Inl (cannot_read data ''_schemaVersion'')
                    else Inr (JObj [(''status'', JStr ''ok''),
                                    (''cloudTimestamp'', JNum (lastUpdated file)),
                                    (''cloudHash'', JStr (gs_calculateHash (fileContent file))),
                                    (''recordCount'', JNum recordCount),
                                    (''schemaVersion'', js_or (get data ''_schemaVersion'') (JNum 1)),
                                    (''payload'', data)]))))"

definition getMetadata :: "gs_env \<Rightarrow> drive \<Rightarrow> error + json" where
  "getMetadata g d =
     (case dataFile d of
        None \<Rightarrow> Inr (JObj [(''status'', JStr ''ok''), (''exists'', JBool False),
                            (''cloudTimestamp'', JNull), (''cloudHash'', JNull),
                            (''recordCount'', JNum 0)])
      | Some file \<Rightarrow>
          (case gs_parse g (fileContent file) of
             Inl e \<Rightarrow> Inl e
           | Inr data \<Rightarrow>
               (case countRecords data of
                  Inl e \<Rightarrow> Inl e
                | Inr recordCount \<Rightarrow>
                    if nullish data then Inl (cannot_read data ''_schemaVersion'')
                    else Inr (JObj [(''status'', JStr ''ok''), (''exists'', JBool True),
                                    (''cloudTimestamp'', JNum (lastUpdated file)),
                                    (''cloudHash'', JStr (gs_calculateHash (fileContent file))),
                                    (''recordCount'', JNum recordCount),
                                    (''schemaVersion'', js_or (get data ''_schemaVersion'') (JNum 1))]))))"

section \<open>An example installation\<close>

text \<open>
  A concrete store, configuration and environment on which the statements below are
  run: the local store holds one document (or \<open>null\<close> when there is no data), the
  importers replace it, the clock ticks once a second from 2023-11-14T22:13:20Z,
  \<open>JSON.parse\<close> reads back the documents of a given list, and the remote takes three
  seconds for every answer and keeps its connections open.
\<close>

definition example_doc :: json where
  "example_doc = JObj [(''info'', JObj [(''uid'', JStr ''1'')]), (''list'', JArr [])]"

definition reordered_doc :: json where
  "reordered_doc = JObj [(''list'', JArr []), (''info'', JObj [(''uid'', JStr ''1'')])]"

definition example_config :: config where
  "example_config =
     \<lparr>googleAppsScriptUrl = ''https://script.example/exec'',
      cloudSyncClientId = JStr ''c1'',
      uigfVersion = JStr ''3.0'',
      uigfAllAccounts = JBool False,
      googleDriveLastSync = JNum 1690000000000\<rparr>"

definition example_parse :: "json list \<Rightarrow> string \<Rightarrow> error + json" where
  "example_parse known s =
     (case find (\<lambda>v. serialize v = s) known of
        Some v \<Rightarrow> Inr v
      | None \<Rightarrow> Inl (Error ''Unexpected token''))"

definition pad2 :: "nat \<Rightarrow> string" where
  "pad2 n = [digit_char (n div 10), digit_char (n mod 10)]"

definition example_env ::
  "(string \<Rightarrow> string \<Rightarrow> string option \<Rightarrow> http_result) \<Rightarrow> json list \<Rightarrow> json env" where
  "example_env http known =
     \<lparr>generateUigf30Json = (\<lambda>s. if s = JNull then Inl (Error ''no data'') else Inr s),
      generateUigf41Json = (\<lambda>allAccounts s. if s = JNull then Inl (Error ''no data'') else Inr s),
      importUgif30Json = (\<lambda>data s. (None, data)),
      importUgif41Json = (\<lambda>data s. (None, data)),
      config_save = (\<lambda>c. None),
      randomUUID = ''3f0c2a9e-5b7d-4e61-9c1a-8d2f6b4e7a10'',
      Date_now = (\<lambda>k. 1700000000000 + 1000 * int k),
      toISOString = (\<lambda>t. ''2023-11-14T22:13:'' @ pad2 (nat ((t div 1000) mod 60)) @ ''.000Z''),
      toLocaleString = ToString,
      URL_valid = (\<lambda>u. True),
      URL_resolve = (\<lambda>location base. Some location),
      https_request = http,
      elapsed = (\<lambda>method url body. 3000),
      stays_open = (\<lambda>url. True),
      JSON_parse = example_parse known,
      string_gt = (\<lambda>s n. False),
      userDataPath = ''/userData'',
      path_join = (\<lambda>a b. a @ ''/'' @ b),
      fs_fails = (\<lambda>operation. False),
      APP_VERSION = ''0.1''\<rparr>"

definition example_world :: "json \<Rightarrow> json world" where
  "example_world doc = \<lparr>cfg = example_config, store = doc, backupDir = [], ticks = 0, trace = []\<rparr>"

text \<open>Remote ends: one that answers every request with a given JSON value, one that
  cannot be reached, one that redirects every request to itself, and one that answers
  after six redirects.\<close>

definition answers :: "json \<Rightarrow> string \<Rightarrow> string \<Rightarrow> string option \<Rightarrow> http_result" where
  "answers v method url body = Response 200 None (serialize v)"

definition unreachable :: "string \<Rightarrow> string \<Rightarrow> string option \<Rightarrow> http_result" where
  "unreachable method url body = Failed (Error ''connect ECONNREFUSED 127.0.0.1:443'')"

definition redirect_loop :: "string \<Rightarrow> string \<Rightarrow> string option \<Rightarrow> http_result" where
  "redirect_loop method url body = Response 302 (Some ''https://script.example/exec'') []"

definition six_redirects :: "json \<Rightarrow> string \<Rightarrow> string \<Rightarrow> string option \<Rightarrow> http_result" where
  "six_redirects v method url body =
     (if url = ''https://script.example/exec'' then Response 302 (Some ''https://a.example/1'') []
      else if url = ''https://a.example/1'' then Response 302 (Some ''https://a.example/2'') []
      else if url = ''https://a.example/2'' then Response 302 (Some ''https://a.example/3'') []
      else if url = ''https://a.example/3'' then Response 302 (Some ''https://a.example/4'') []
      else if url = ''https://a.example/4'' then Response 302 (Some ''https://a.example/5'') []
      else if url = ''https://a.example/5'' then Response 302 (Some ''https://a.example/6'') []
      else Response 200 None (serialize v))"

definition download_request :: json where
  "download_request = JObj [(''action'', JStr ''download'')]"

definition newer_response :: json where
  "newer_response =
     JObj [(''status'', JStr ''ok''), (''schemaVersion'', JNum 2), (''payload'', example_doc)]"

definition unversioned_response :: json where
  "unversioned_response =
     JObj [(''status'', JStr ''ok''),
           (''payload'', JObj [(''info'', JObj [(''uid'', JStr ''1'')]), (''list'', JArr []),
                               (''_schemaVersion'', JNum 99)])]"

definition no_file_response :: json where
  "no_file_response =
     JObj [(''status'', JStr ''error''), (''error'', JStr ''No data file found in cloud storage''),
           (''exists'', JBool False)]"

definition cloud_metadata :: json where
  "cloud_metadata =
     JObj [(''status'', JStr ''ok''), (''exists'', JBool True), (''cloudTimestamp'', JNum 1700000500000),
           (''cloudHash'', JStr ''b2''), (''recordCount'', JNum 120), (''schemaVersion'', JNum 1)]"

text \<open>Eleven backups taken one second apart into an empty directory, and the ten files
  that are left.\<close>

definition eleven_backups :: "json world list" where
  "eleven_backups = map (\<lambda>k. (example_world example_doc)\<lparr>ticks := k\<rparr>) [0, 1, 2, 3, 4, 5, 6, 7, 8, 9, 10]"

definition ten_newest :: "(string \<times> json) list" where
  "ten_newest =
     [(''backup_2023-11-14T22-13-21-000Z.json'', example_doc),
      (''backup_2023-11-14T22-13-22-000Z.json'', example_doc),
      (''backup_2023-11-14T22-13-23-000Z.json'', example_doc),
      (''backup_2023-11-14T22-13-24-000Z.json'', example_doc),
      (''backup_2023-11-14T22-13-25-000Z.json'', example_doc),
      (''backup_2023-11-14T22-13-26-000Z.json'', example_doc),
      (''backup_2023-11-14T22-13-27-000Z.json'', example_doc),
      (''backup_2023-11-14T22-13-28-000Z.json'', example_doc),
      (''backup_2023-11-14T22-13-29-000Z.json'', example_doc),
      (''backup_2023-11-14T22-13-30-000Z.json'', example_doc)]"

text \<open>Eleven backups that all read the clock at the same millisecond.\<close>

definition eleven_at_once :: "json world list" where
  "eleven_at_once = map (\<lambda>k. example_world example_doc) [0, 1, 2, 3, 4, 5, 6, 7, 8, 9, 10 :: nat]"

text \<open>The remote store of the example: an empty Drive, the envelope that
  \<open>uploadToCloud\<close> sends for the example document, and the document as the script
  stores it.\<close>

definition example_gs :: "json list \<Rightarrow> gs_env" where
  "example_gs known =
     \<lparr>gs_now = 1700000001000,
      gs_updated = 1700000002000,
      gs_formatDate = ''2023-11-14_22-13-21'',
      gs_newFileId = ''file-1'',
      gs_parse = example_parse known,
      gs_string_gt = (\<lambda>s n. False)\<rparr>"

definition empty_drive :: drive where
  "empty_drive = \<lparr>dataFile = None, backupFolder = None\<rparr>"

definition upload_envelope :: json where
  "upload_envelope =
     JObj [(''action'', JStr ''upload''), (''schemaVersion'', JNum 1), (''appVersion'', JStr ''0.1''),
           (''clientId'', JStr ''c1''), (''timestamp'', JNum 1700000000000),
           (''dataHash'', JStr (sha256_hex (serialize example_doc))), (''payload'', example_doc)]"

definition stamped_doc :: json where
  "stamped_doc =
     JObj [(''info'', JObj [(''uid'', JStr ''1'')]), (''list'', JArr []),
           (''_schemaVersion'', JNum 1), (''_uploadTimestamp'', JNum 1700000001000),
           (''_clientId'', JStr ''c1''), (''_appVersion'', JStr ''0.1'')]"

section \<open>Facts about the state\<close>

subsection \<open>What an operation leaves alone\<close>

lemma cfg_log_event [simp]: "cfg (log_event ev w) = cfg w"
  by (simp add: log_event_def)

lemma store_log_event [simp]: "store (log_event ev w) = store w"
  by (simp add: log_event_def)

lemma trace_log_event [simp]: "trace (log_event ev w) = trace w @ [ev]"
  by (simp add: log_event_def)

lemma read_clock_frame [simp]:
  "cfg (snd (read_clock env w)) = cfg w" "trace (snd (read_clock env w)) = trace w"
  "store (snd (read_clock env w)) = store w"
  by (simp_all add: read_clock_def)



lemma call_import_frame:
  "call_import name importer data w = (r, w') \<Longrightarrow>
     cfg w' = cfg w \<and> trace w' = trace w @ [ImportInvoked name data]"
  by (auto simp: call_import_def Let_def split: prod.splits)

lemma import_payload_frame:
  "import_payload env data w = (r, w') \<Longrightarrow>
     cfg w' = cfg w \<and> (\<exists>added. trace w' = trace w @ added \<and> list_all (keeps_sync_time t) added)"
  by (auto simp: import_payload_def split: if_splits dest!: call_import_frame)





subsection \<open>The transfers settle when the transport does\<close>



subsection \<open>The trace only grows\<close>

lemma backup_attempt_trace: "trace (snd (backup_attempt env w)) = trace w"
  by (simp add: backup_attempt_def Let_def read_clock_def split: prod.splits sum.splits)

lemma createLocalBackup_trace:
  "trace (snd (createLocalBackup env w)) = trace w @ [BackupCompleted (fst (createLocalBackup env w))]"
  using backup_attempt_trace [of env w]
  by (cases "backup_attempt env w") (simp add: createLocalBackup_def)

lemma record_sync_trace: "\<exists>added. trace (snd (record_sync env response w)) = trace w @ added"
  by (simp add: record_sync_def save_config_def Let_def read_clock_def split: prod.splits option.splits)

lemma import_response_trace: "\<exists>added. trace (snd (import_response env response w)) = trace w @ added"
proof (cases "import_payload env (get response ''payload'') w")
  case (Pair r w1)
  from import_payload_frame [OF Pair, of JNull] obtain added where a: "trace w1 = trace w @ added"
    by blast
  show ?thesis
  proof (cases r)
    case None
    with Pair record_sync_trace [of env response w1] a show ?thesis
      by (auto simp: import_response_def)
  next
    case (Some e)
    with Pair a show ?thesis by (simp add: import_response_def)
  qed
qed

lemma downloadFromCloud_trace:
  assumes "downloadFromCloud env w = Some (outcome, w')"
  shows "\<exists>added. trace w' = trace w @ added"
proof -
  define request where "request = JObj [(''action'', JStr ''download'')]"
  define w1 where "w1 = log_event (Requested request) w"
  have w1: "trace w1 = trace w @ [Requested request]"
    by (simp add: w1_def)
  show ?thesis
  proof (cases "makeRequest env (cfg w1) request None")
    case None
    with assms show ?thesis by (simp add: downloadFromCloud_def Let_def request_def w1_def)
  next
    case (Some r)
    show ?thesis
    proof (cases r)
      case (Inl a)
      with assms Some have "w' = w1" by (simp add: downloadFromCloud_def Let_def request_def w1_def)
      with w1 show ?thesis by simp
    next
      case (Inr response)
      with assms Some have "w' = w1 \<or> w' = snd (import_response env response w1)"
        by (auto simp: downloadFromCloud_def Let_def request_def w1_def split: if_splits)
      with w1 import_response_trace [of env response w1] show ?thesis by auto
    qed
  qed
qed

subsection \<open>The recursion of makeRequest and the chain of exchanges\<close>

lemma follow_within:
  "follow n env c p u armed = Some r \<Longrightarrow> makeRequest_within env c p u armed = Some r"
proof (induction n arbitrary: p u armed)
  case 0
  then show ?case by simp
next
  case (Suc n)
  show ?case
  proof (cases "fired armed (fst (exchange env c p u))")
    case True
    with Suc.prems show ?thesis by (subst makeRequest_within.simps) simp
  next
    case False
    show ?thesis
    proof (cases "snd (exchange env c p u)")
      case (Settled outcome)
      with Suc.prems False show ?thesis by (subst makeRequest_within.simps) simp
    next
      case (Redirected newUrl timer)
      with Suc.prems False
      have "follow n env c JNull (Some newUrl) (still_armed armed (fst (exchange env c p u)) timer) = Some r"
        by simp
      from Suc.IH [OF this] Redirected False show ?thesis
        by (subst makeRequest_within.simps) simp
    next
      case (Uncaught e timer)
      with Suc.prems False show ?thesis
        by (subst makeRequest_within.simps) (simp split: if_splits)
    qed
  qed
qed

lemma within_follow:
  assumes "makeRequest_within env c p u armed = Some r"
  shows "\<exists>n. follow n env c p u armed = Some r"
proof (rule makeRequest_within.raw_induct
         [where P = "\<lambda>env c p u armed r. \<exists>n. follow n env c p u armed = Some r"], goal_cases)
  case (1 f env c p u armed r)
  show ?case
  proof (cases "fired armed (fst (exchange env c p u))")
    case True
    with 1(2) have "follow (Suc 0) env c p u armed = Some r" by simp
    then show ?thesis by blast
  next
    case False
    show ?thesis
    proof (cases "snd (exchange env c p u)")
      case (Settled outcome)
      with 1(2) False have "follow (Suc 0) env c p u armed = Some r" by simp
      then show ?thesis by blast
    next
      case (Redirected newUrl timer)
      with 1(2) False
      have "f env c JNull (Some newUrl) (still_armed armed (fst (exchange env c p u)) timer) = Some r"
        by simp
      from 1(1) [OF this] obtain n
        where "follow n env c JNull (Some newUrl) (still_armed armed (fst (exchange env c p u)) timer) = Some r"
        by blast
      with Redirected False have "follow (Suc n) env c p u armed = Some r" by simp
      then show ?thesis by blast
    next
      case (Uncaught e timer)
      with 1(2) False have "follow (Suc 0) env c p u armed = Some r"
        by (simp split: if_splits)
      then show ?thesis by blast
    qed
  qed
next
  case 2
  show ?case by (rule assms)
qed

lemma follow_makeRequest:
  "follow n env c p u None = Some r \<Longrightarrow> makeRequest env c p u = Some r"
  unfolding makeRequest_def by (rule follow_within)

lemma makeRequest_follow:
  "makeRequest env c p u = Some r \<Longrightarrow> \<exists>n. follow n env c p u None = Some r"
  unfolding makeRequest_def by (rule within_follow)

lemma follow_numeral:
  "follow (numeral k) env c p u armed =
     (if fired armed (fst (exchange env c p u)) then Some (Inl request_timeout)
      else
        (case snd (exchange env c p u) of
           Settled outcome \<Rightarrow> Some outcome
         | Redirected newUrl timer \<Rightarrow>
             follow (pred_numeral k) env c JNull (Some newUrl)
               (still_armed armed (fst (exchange env c p u)) timer)
         | Uncaught e timer \<Rightarrow>
             (if still_armed armed (fst (exchange env c p u)) timer = None then None
              else Some (Inl request_timeout))))"
  by (simp only: numeral_eq_Suc follow.simps)

lemma follow_one:
  "follow 1 env c p u armed =
     (if fired armed (fst (exchange env c p u)) then Some (Inl request_timeout)
      else
        (case snd (exchange env c p u) of
           Settled outcome \<Rightarrow> Some outcome
         | Redirected newUrl timer \<Rightarrow> None
         | Uncaught e timer \<Rightarrow>
             (if still_armed armed (fst (exchange env c p u)) timer = None then None
              else Some (Inl request_timeout))))"
  by (simp only: One_nat_def follow.simps)

text \<open>A call under an armed timer settles, provided that every exchange takes time.\<close>

lemma redirect_takes_time:
  assumes "\<And>method url body. 0 < elapsed env method url body"
    and "snd (exchange env c p u) = Redirected newUrl timer"
  shows "0 < fst (exchange env c p u)"
  using assms(2) assms(1)
  by (simp add: exchange_def Let_def split: if_splits)

lemma still_armed_less:
  "\<not> fired (Some t) took \<Longrightarrow> 0 < took \<Longrightarrow> \<exists>t'. still_armed (Some t) took timer = Some t' \<and> t' < t"
  by (cases timer) (auto simp: still_armed_def fired_def)

lemma still_armed_Some: "still_armed (Some t) took timer \<noteq> None"
  by (cases timer) (simp_all add: still_armed_def)

lemma within_settles:
  assumes pos: "\<And>method url body. 0 < elapsed env method url body"
  shows "makeRequest_within env c p u (Some t) \<noteq> None"
proof (induction t arbitrary: p u rule: less_induct)
  case (less t)
  show ?case
  proof (cases "fired (Some t) (fst (exchange env c p u))")
    case True
    then show ?thesis by (subst makeRequest_within.simps) simp
  next
    case False
    show ?thesis
    proof (cases "snd (exchange env c p u)")
      case (Settled outcome)
      with False show ?thesis by (subst makeRequest_within.simps) simp
    next
      case (Redirected newUrl timer)
      from still_armed_less [OF False redirect_takes_time [OF pos Redirected], of timer]
      obtain t' where t': "still_armed (Some t) (fst (exchange env c p u)) timer = Some t'" "t' < t"
        by blast
      from less.IH [OF t'(2), of JNull "Some newUrl"] Redirected False t'(1) show ?thesis
        by (subst makeRequest_within.simps) simp
    next
      case (Uncaught e timer)
      with False still_armed_Some [of t "fst (exchange env c p u)" timer] show ?thesis
        by (subst makeRequest_within.simps) simp
    qed
  qed
qed

lemma timer_of_hop:
  assumes "\<And>url. stays_open env url"
    and "snd (exchange env c p u) = Redirected newUrl timer \<or> snd (exchange env c p u) = Uncaught e timer"
  shows "timer = Some 30000"
  using assms(2) assms(1)
  by (auto simp: exchange_def Let_def idle_timer_def split: if_splits http_result.splits option.splits sum.splits)

lemma makeRequest_settles:
  assumes pos: "\<And>method url body. 0 < elapsed env method url body"
    and kept: "\<And>url. stays_open env url"
  shows "makeRequest env c p u \<noteq> None"
proof (cases "snd (exchange env c p u)")
  case (Settled outcome)
  then show ?thesis
    unfolding makeRequest_def by (subst makeRequest_within.simps) (simp add: fired_def)
next
  case (Redirected newUrl timer)
  with timer_of_hop [OF kept, of c p u newUrl timer] have "timer = Some 30000" by simp
  with Redirected within_settles [OF pos, of c JNull "Some newUrl" 30000] show ?thesis
    unfolding makeRequest_def by (subst makeRequest_within.simps) (simp add: fired_def still_armed_def)
next
  case (Uncaught e timer)
  with timer_of_hop [OF kept, of c p u _ timer e] have "timer = Some 30000" by simp
  with Uncaught show ?thesis
    unfolding makeRequest_def by (subst makeRequest_within.simps) (simp add: fired_def still_armed_def)
qed

text \<open>A chain in which every exchange is answered by a redirect ends by a timer or not
  at all.\<close>

lemma endless_chain_follow:
  assumes "\<And>p u. \<exists>newUrl timer. snd (exchange env c p u) = Redirected newUrl timer"
  shows "follow n env c p u armed = Some r \<Longrightarrow> r = Inl request_timeout"
proof (induction n arbitrary: p u armed)
  case 0
  then show ?case by simp
next
  case (Suc n)
  from assms [of p u] obtain newUrl timer where "snd (exchange env c p u) = Redirected newUrl timer"
    by blast
  with Suc.prems Suc.IH show ?case
    by (auto split: if_splits)
qed


subsection \<open>Descending listings of the backup directory\<close>

lemma set_ins_desc [simp]: "set (ins_desc x xs) = insert x (set xs)"
  by (induction xs) auto

lemma sorted_ins_desc: "sorted_wrt (>) xs \<Longrightarrow> sorted_wrt (>) (ins_desc x xs)"
  by (induction xs) auto

lemma desc_unique:
  fixes xs ys :: "'a::linorder list"
  assumes "sorted_wrt (>) xs" "sorted_wrt (>) ys" "set xs = set ys"
  shows "xs = ys"
proof -
  have "sorted_wrt (<) (rev xs)" "sorted_wrt (<) (rev ys)"
    using assms by (simp_all add: sorted_wrt_rev)
  then have "sorted (rev xs)" "distinct (rev xs)" "sorted (rev ys)" "distinct (rev ys)"
    by (simp_all add: strict_sorted_iff)
  with assms(3) have "rev xs = rev ys"
    by (intro sorted_distinct_set_unique) simp_all
  then show ?thesis by simp
qed

lemma take_ins_desc:
  "sorted_wrt (>) xs \<Longrightarrow> take n (ins_desc x (take n xs)) = take n (ins_desc x xs)"
proof (induction xs arbitrary: n)
  case Nil
  then show ?case by simp
next
  case (Cons y ys)
  show ?case
  proof (cases n)
    case 0
    then show ?thesis by simp
  next
    case (Suc m)
    with Cons show ?thesis by (cases m) auto
  qed
qed

lemma sorted_take_desc: "sorted_wrt (>) xs \<Longrightarrow> sorted_wrt (>) (take n xs)"
  by (metis append_take_drop_id sorted_wrt_append)

lemma listed_backups_desc:
  "distinct (map fst dir) \<Longrightarrow> sorted_wrt (>) (listed_backups dir)"
proof -
  assume "distinct (map fst dir)"
  then have "sorted_wrt (<) (sort (filter (\<lambda>f. startsWith f ''backup_'') (map fst dir)))"
    by (simp add: strict_sorted_iff)
  then show ?thesis
    by (simp add: listed_backups_def sorted_wrt_rev)
qed

lemma set_listed_backups [simp]: "set (listed_backups dir) = set (backup_files dir)"
  by (simp add: listed_backups_def backup_files_def)

lemma length_listed_backups [simp]: "length (listed_backups dir) = length (backup_files dir)"
  by (simp add: listed_backups_def backup_files_def)

lemma startsWith_backupFileName [simp]: "startsWith (backupFileName t) ''backup_''"
  by (simp add: startsWith_def backupFileName_def)

lemma remove_files_result:
  "remove_files env fs dir = (True, dir') \<Longrightarrow> dir' = filter (\<lambda>entry. fst entry \<notin> set fs) dir"
proof (induction fs arbitrary: dir)
  case Nil
  then show ?case by simp
next
  case (Cons f fs)
  from Cons.prems have nf: "\<not> fs_fails env (Remove f)"
    and r: "remove_files env fs (filter (\<lambda>entry. fst entry \<noteq> f) dir) = (True, dir')"
    by (auto split: if_splits)
  from Cons.IH [OF r] show ?case by (simp add: conj_commute)
qed

lemma backup_files_update:
  "set (backup_files (AList.update (backupFileName t) data dir))
     = insert (backupFileName t) (set (backup_files dir))"
  by (auto simp: backup_files_def dom_update image_iff)

lemma backup_files_filter:
  "backup_files (filter (\<lambda>entry. fst entry \<notin> S) dir) = filter (\<lambda>f. f \<notin> S) (backup_files dir)"
  by (induction dir) (auto simp: backup_files_def)

text \<open>One successful backup.\<close>

lemma backup_step:
  assumes ok: "createLocalBackup env w = (JStr p, w')"
    and dist: "distinct (map fst (backupDir w))"
  shows "distinct (map fst (backupDir w'))
         \<and> listed_backups (backupDir w')
             = take 10 (ins_desc (backupFileName (backup_stamp env (ticks w))) (listed_backups (backupDir w)))"
proof -
  define f where "f = backupFileName (backup_stamp env (ticks w))"
  from ok have att: "fst (backup_attempt env w) = JStr p" "backupDir w' = backupDir (snd (backup_attempt env w))"
    by (auto simp: createLocalBackup_def log_event_def split: prod.splits)
  obtain data where gen: "generateData env (snd (read_clock env w)) = Inr data"
    using att(1)
    by (cases "generateData env (snd (read_clock env w))")
       (auto simp: backup_attempt_def Let_def split: prod.splits if_splits)
  define d1 where "d1 = AList.update f data (backupDir w)"
  define B where "B = listed_backups d1"
  have rem: "remove_files env (drop 10 B) d1 = (True, backupDir w')"
    using att gen
    by (auto simp: backup_attempt_def Let_def read_clock_def backup_stamp_def f_def d1_def B_def
             split: prod.splits if_splits)
  have d1_dist: "distinct (map fst d1)"
    using dist by (simp add: d1_def distinct_update)
  have Bd: "sorted_wrt (>) B"
    unfolding B_def by (rule listed_backups_desc [OF d1_dist])
  have Bset: "set B = insert f (set (backup_files (backupDir w)))"
    by (simp add: B_def d1_def f_def backup_files_update)
  have B_ins: "B = ins_desc f (listed_backups (backupDir w))"
    by (rule desc_unique [OF Bd sorted_ins_desc [OF listed_backups_desc [OF dist]]]) (simp add: Bset)
  from remove_files_result [OF rem]
  have fin: "backupDir w' = filter (\<lambda>entry. fst entry \<notin> set (drop 10 B)) d1" .
  have dist': "distinct (map fst (backupDir w'))"
    using d1_dist by (simp add: fin distinct_map_filter)
  have "distinct B" using Bd by (metis distinct_rev sorted_wrt_rev strict_sorted_iff)
  then have "set (take 10 B) \<inter> set (drop 10 B) = {}"
    by (metis append_take_drop_id distinct_append)
  moreover have "set B = set (take 10 B) \<union> set (drop 10 B)"
    by (metis append_take_drop_id set_append)
  ultimately have "set B - set (drop 10 B) = set (take 10 B)"
    by blast
  then have "set (listed_backups (backupDir w')) = set (take 10 B)"
    by (auto simp: fin backup_files_filter B_def)
  then have "listed_backups (backupDir w') = take 10 B"
    by (intro desc_unique listed_backups_desc dist' sorted_take_desc Bd)
  with B_ins dist' show ?thesis by (simp add: f_def)
qed


lemma sorted_foldl_ins_desc:
  "sorted_wrt (>) L \<Longrightarrow> sorted_wrt (>) (foldl (\<lambda>L x. ins_desc x L) L xs)"
  by (induction xs arbitrary: L) (simp_all add: sorted_ins_desc)

lemma set_foldl_ins_desc [simp]:
  "set (foldl (\<lambda>L x. ins_desc x L) L xs) = set L \<union> set xs"
  by (induction xs arbitrary: L) auto

lemma take_foldl_ins_desc:
  "sorted_wrt (>) L \<Longrightarrow>
     take n (foldl (\<lambda>L x. ins_desc x L) (take n L) xs) = take n (foldl (\<lambda>L x. ins_desc x L) L xs)"
proof (induction xs arbitrary: L)
  case Nil
  then show ?case by simp
next
  case (Cons x xs)
  have "take n (foldl (\<lambda>L x. ins_desc x L) (ins_desc x (take n L)) xs)
        = take n (foldl (\<lambda>L x. ins_desc x L) (take n (ins_desc x (take n L))) xs)"
    using Cons.IH [of "ins_desc x (take n L)"] Cons.prems
    by (simp add: sorted_ins_desc sorted_take_desc)
  also have "\<dots> = take n (foldl (\<lambda>L x. ins_desc x L) (take n (ins_desc x L)) xs)"
    using Cons.prems by (simp add: take_ins_desc)
  also have "\<dots> = take n (foldl (\<lambda>L x. ins_desc x L) (ins_desc x L) xs)"
    using Cons.IH [of "ins_desc x L"] Cons.prems by (simp add: sorted_ins_desc)
  finally show ?case by simp
qed

lemma backup_run_listed:
  assumes "backup_run env ws dir = Some dir'" "distinct (map fst dir)" "ws \<noteq> []"
  shows "distinct (map fst dir')
         \<and> listed_backups dir' = take 10 (foldl (\<lambda>L x. ins_desc x L) (listed_backups dir) (run_names env ws))"
  using assms
proof (induction ws arbitrary: dir)
  case Nil
  then show ?case by simp
next
  case (Cons w ws)
  obtain r w' where b: "createLocalBackup env (w\<lparr>backupDir := dir\<rparr>) = (r, w')"
    by (cases "createLocalBackup env (w\<lparr>backupDir := dir\<rparr>)")
  with Cons.prems(1) obtain p where p: "r = JStr p" and rest: "backup_run env ws (backupDir w') = Some dir'"
    by (cases r) auto
  from backup_step [of env "w\<lparr>backupDir := dir\<rparr>" p w'] b p Cons.prems(2)
  have d1: "distinct (map fst (backupDir w'))"
    and l1: "listed_backups (backupDir w')
              = take 10 (ins_desc (backupFileName (backup_stamp env (ticks w))) (listed_backups dir))"
    by simp_all
  show ?case
  proof (cases "ws = []")
    case True
    with rest d1 l1 show ?thesis by (simp add: run_names_def)
  next
    case False
    from Cons.IH [OF rest d1 False] l1
    have "distinct (map fst dir')"
      and "listed_backups dir'
            = take 10 (foldl (\<lambda>L x. ins_desc x L)
                (take 10 (ins_desc (backupFileName (backup_stamp env (ticks w))) (listed_backups dir)))
                (run_names env ws))"
      by simp_all
    moreover have "sorted_wrt (>) (ins_desc (backupFileName (backup_stamp env (ticks w))) (listed_backups dir))"
      by (intro sorted_ins_desc listed_backups_desc Cons.prems(2))
    ultimately show ?thesis
      by (simp add: take_foldl_ins_desc run_names_def)
  qed
qed

lemma less_same_prefix: "p @ s < p @ t \<longleftrightarrow> s < (t :: 'a::linorder list)"
  by (induction p) auto

lemma less_same_suffix:
  "length s = length t \<Longrightarrow> s @ u < t @ u \<longleftrightarrow> s < (t :: 'a::linorder list)"
  by (induction s t rule: list_induct2) auto

lemma backupFileName_less:
  "length s = length t \<Longrightarrow> backupFileName s < backupFileName t \<longleftrightarrow> s < t"
  unfolding backupFileName_def by (simp only: less_same_prefix less_same_suffix)

subsection \<open>The example installation\<close>

lemma example_env_fields [simp]:
  "generateUigf30Json (example_env http known) = (\<lambda>s. if s = JNull then Inl (Error ''no data'') else Inr s)"
  "generateUigf41Json (example_env http known)
     = (\<lambda>allAccounts s. if s = JNull then Inl (Error ''no data'') else Inr s)"
  "importUgif30Json (example_env http known) = (\<lambda>data s. (None, data))"
  "importUgif41Json (example_env http known) = (\<lambda>data s. (None, data))"
  "config_save (example_env http known) = (\<lambda>c. None)"
  "randomUUID (example_env http known) = ''3f0c2a9e-5b7d-4e61-9c1a-8d2f6b4e7a10''"
  "Date_now (example_env http known) = (\<lambda>k. 1700000000000 + 1000 * int k)"
  "toISOString (example_env http known)
     = (\<lambda>t. ''2023-11-14T22:13:'' @ pad2 (nat ((t div 1000) mod 60)) @ ''.000Z'')"
  "toLocaleString (example_env http known) = ToString"
  "URL_valid (example_env http known) = (\<lambda>u. True)"
  "URL_resolve (example_env http known) = (\<lambda>location base. Some location)"
  "https_request (example_env http known) = http"
  "elapsed (example_env http known) = (\<lambda>method url body. 3000)"
  "stays_open (example_env http known) = (\<lambda>url. True)"
  "JSON_parse (example_env http known) = example_parse known"
  "string_gt (example_env http known) = (\<lambda>s n. False)"
  "userDataPath (example_env http known) = ''/userData''"
  "path_join (example_env http known) = (\<lambda>a b. a @ ''/'' @ b)"
  "fs_fails (example_env http known) = (\<lambda>operation. False)"
  "APP_VERSION (example_env http known) = ''0.1''"
  by (simp_all add: example_env_def)

lemma example_world_fields [simp]:
  "cfg (example_world doc) = example_config"
  "store (example_world doc) = doc"
  "backupDir (example_world doc) = []"
  "ticks (example_world doc) = 0"
  "trace (example_world doc) = []"
  by (simp_all add: example_world_def)

lemma example_config_fields [simp]:
  "googleAppsScriptUrl example_config = ''https://script.example/exec''"
  "cloudSyncClientId example_config = JStr ''c1''"
  "uigfVersion example_config = JStr ''3.0''"
  "uigfAllAccounts example_config = JBool False"
  "googleDriveLastSync example_config = JNum 1690000000000"
  by (simp_all add: example_config_def)

lemma calculateHash_object [simp]:
  "calculateHash (JObj kvs) = Inr (sha256_hex (serialize (JObj kvs)))"
  by (simp add: calculateHash_def JSON_stringify_def)

lemma example_request:
  "makeRequest (example_env (answers v) (v # known)) example_config p None = Some (Inr v)"
  unfolding makeRequest_def
  by (subst makeRequest_within.simps) (simp add: exchange_def answers_def example_parse_def fired_def)

lemma example_unreachable:
  "makeRequest (example_env unreachable known) example_config p None
     = Some (Inl (Error ''connect ECONNREFUSED 127.0.0.1:443''))"
  unfolding makeRequest_def
  by (subst makeRequest_within.simps) (simp add: exchange_def unreachable_def fired_def)


lemma calculateHash_string [simp]: "calculateHash (JStr s) = Inr (sha256_hex s)"
  by (simp add: calculateHash_def)

lemma example_doc_not_null [simp]: "example_doc \<noteq> JNull"
  by (simp add: example_doc_def)

lemma example_backup:
  "createLocalBackup (example_env http known) (example_world example_doc)
     = (JStr ''/userData/cloud-sync-backups/backup_2023-11-14T22-13-20-000Z.json'',
        \<lparr>cfg = example_config, store = example_doc,
         backupDir = [(''backup_2023-11-14T22-13-20-000Z.json'', example_doc)],
         ticks = 1,
         trace = [BackupCompleted (JStr ''/userData/cloud-sync-backups/backup_2023-11-14T22-13-20-000Z.json'')]\<rparr>)"
  by (simp add: createLocalBackup_def backup_attempt_def generateData_def read_clock_def Let_def
        log_event_def listed_backups_def startsWith_def backupFileName_def replace_colon_dot_def
        pad2_def digit_char_def example_world_def example_doc_def)


lemma example_local_metadata:
  "getLocalMetadata (example_env http known) (example_world example_doc)
     = (JObj [(''exists'', JBool True), (''localTimestamp'', JNum 1690000000000),
              (''localHash'', JStr (sha256_hex (serialize example_doc))),
              (''recordCount'', JNum 0), (''data'', example_doc)],
        example_world example_doc)"
proof -
  have "countRecords example_doc = Inr 0"
    by (simp add: countRecords_def example_doc_def)
  moreover have "JSON_stringify example_doc = JStr (serialize example_doc)"
    by (simp add: JSON_stringify_def example_doc_def)
  moreover have "generateData (example_env http known) (example_world example_doc) = Inr example_doc"
    by (simp add: generateData_def example_doc_def)
  ultimately show ?thesis
    by (simp add: getLocalMetadata_def)
qed

lemma loop_exchange:
  "exchange (example_env redirect_loop known) example_config p u
     = (3000, Redirected ''https://script.example/exec'' (Some 30000))"
  by (cases u) (simp_all add: exchange_def redirect_loop_def idle_timer_def)

lemma redirect_loop_times_out:
  "makeRequest (example_env redirect_loop known) example_config p None = Some (Inl request_timeout)"
proof -
  have "follow 11 (example_env redirect_loop known) example_config p None None = Some (Inl request_timeout)"
    by (simp add: follow_numeral follow_one loop_exchange fired_def still_armed_def)
  then show ?thesis by (rule follow_makeRequest)
qed

lemma six_redirects_chain:
  "follow 7 (example_env (six_redirects v) [v]) example_config p None None = Some (Inr v)"
  by (simp add: follow_numeral follow_one exchange_def six_redirects_def example_parse_def fired_def
        still_armed_def idle_timer_def)

lemma eleven_names:
  "run_names (example_env http known) eleven_backups
     = [''backup_2023-11-14T22-13-20-000Z.json'', ''backup_2023-11-14T22-13-21-000Z.json'',
        ''backup_2023-11-14T22-13-22-000Z.json'', ''backup_2023-11-14T22-13-23-000Z.json'',
        ''backup_2023-11-14T22-13-24-000Z.json'', ''backup_2023-11-14T22-13-25-000Z.json'',
        ''backup_2023-11-14T22-13-26-000Z.json'', ''backup_2023-11-14T22-13-27-000Z.json'',
        ''backup_2023-11-14T22-13-28-000Z.json'', ''backup_2023-11-14T22-13-29-000Z.json'',
        ''backup_2023-11-14T22-13-30-000Z.json'']"
  by (simp add: run_names_def eleven_backups_def backup_stamp_def backupFileName_def
        replace_colon_dot_def pad2_def digit_char_def)

lemma eleven_at_once_run:
  "backup_run (example_env http known) eleven_at_once []
     = Some [(''backup_2023-11-14T22-13-20-000Z.json'', example_doc)]"
  by (simp add: eleven_at_once_def createLocalBackup_def backup_attempt_def
        generateData_def read_clock_def Let_def log_event_def listed_backups_def startsWith_def
        backupFileName_def replace_colon_dot_def pad2_def digit_char_def example_world_def)

lemma eleven_run:
  "backup_run (example_env http known) eleven_backups [] = Some ten_newest"
  by (simp add: eleven_backups_def ten_newest_def createLocalBackup_def backup_attempt_def
        generateData_def read_clock_def Let_def log_event_def listed_backups_def startsWith_def
        backupFileName_def replace_colon_dot_def pad2_def digit_char_def example_world_def)

lemma example_gs_fields [simp]:
  "gs_now (example_gs known) = 1700000001000"
  "gs_updated (example_gs known) = 1700000002000"
  "gs_formatDate (example_gs known) = ''2023-11-14_22-13-21''"
  "gs_newFileId (example_gs known) = ''file-1''"
  "gs_parse (example_gs known) = example_parse known"
  "gs_string_gt (example_gs known) = (\<lambda>s n. False)"
  by (simp_all add: example_gs_def)

subsection \<open>Hashes of the example documents\<close>

text \<open>The digests below are computed by rewriting with the definitions of SHA-256;
  they are the values that \<open>sha256sum\<close> prints for the three serializations.\<close>

lemmas serialize_eval = quote_def escape_char_def show_int_def digits.simps digit_char_def
  own_properties_def is_index_def index_value_def

lemmas sha256_eval = sha256_hex_def sha256_def sha_pad_def be64_def compress_def H256_def K256_def
  add32_def rotr_def ssig0_def ssig1_def bsig0_def bsig1_def choice32_def majority32_def
  hex32_def digit_char_def zeros.simps

lemma hash_example_doc:
  "sha256_hex (serialize example_doc) = ''6ed56323968118631ce0254f5d97e4ea14bb9fba1a28980eb54a4c23e204935e''"
  by (simp add: example_doc_def serialize_eval sha256_eval)

lemma hash_reordered_doc:
  "sha256_hex (serialize reordered_doc) = ''67ad7fc85a725a9a26601ee0df5967f9260505c3b5b46c4c900dd24768061cfb''"
  by (simp add: reordered_doc_def serialize_eval sha256_eval)

lemma hash_stamped_doc:
  "sha256_hex (serialize stamped_doc) = ''9c901758ec3a50eea6d26c35d42ae5686fe606e7c7496f98d9dfa74a11e9508a''"
  by (simp add: stamped_doc_def serialize_eval sha256_eval)

lemma stamp_example:
  "stamp_payload (example_gs known) upload_envelope (get upload_envelope ''payload'') = stamped_doc"
  by (simp add: stamp_payload_def upload_envelope_def example_doc_def stamped_doc_def
        js_or_def CURRENT_SCHEMA_VERSION_def)

lemma count_stamped_doc: "countRecords stamped_doc = Inr 0"
  by (simp add: countRecords_def stamped_doc_def)

lemma upload_example:
  "uploadData (example_gs known) upload_envelope empty_drive
     = (Inr (JObj [(''status'', JStr ''ok''), (''cloudTimestamp'', JNum 1700000002000),
                   (''cloudHash'', JStr (sha256_hex (serialize stamped_doc))),
                   (''recordCount'', JNum 0), (''fileId'', JStr ''file-1'')]),
        \<lparr>dataFile = Some \<lparr>fileContent = serialize stamped_doc, lastUpdated = 1700000002000,
                           fileId = ''file-1''\<rparr>,
         backupFolder = None\<rparr>)"
proof -
  have ch: "\<not> (truthy (get upload_envelope ''schemaVersion'')
              \<and> js_gt (gs_string_gt (example_gs known)) (get upload_envelope ''schemaVersion'') CURRENT_SCHEMA_VERSION)"
    "truthy (get upload_envelope ''payload'')"
    by (simp_all add: upload_envelope_def js_gt_def CURRENT_SCHEMA_VERSION_def example_doc_def)
  show ?thesis
    using ch by (simp add: uploadData_def stamp_example count_stamped_doc Let_def gs_calculateHash_def empty_drive_def)
qed

lemma download_example:
  "downloadData (example_gs [stamped_doc]) (snd (uploadData (example_gs [stamped_doc]) upload_envelope empty_drive))
     = Inr (JObj [(''status'', JStr ''ok''), (''cloudTimestamp'', JNum 1700000002000),
                  (''cloudHash'', JStr (sha256_hex (serialize stamped_doc))),
                  (''recordCount'', JNum 0), (''schemaVersion'', JNum 1), (''payload'', stamped_doc)])"
proof -
  have sv: "get stamped_doc ''_schemaVersion'' = JNum 1" "\<not> nullish stamped_doc"
    by (simp_all add: stamped_doc_def)
  show ?thesis
    by (simp add: upload_example downloadData_def example_parse_def count_stamped_doc sv js_or_def
          gs_calculateHash_def)
qed

text \<open>What the code itself compares. Nothing on either side sets the stamp aside: the
  \<open>cloudHash\<close> that the remote reports is the hash of the stamped text, and the comparison
  of \<open>CLOUD_SYNC_GET_METADATA\<close> holds it against the hash of the local document, so that a
  document that was just uploaded unchanged is reported as a conflict.\<close>

lemma unstripped_hashes_differ:
  "calculateHash stamped_doc = Inr ''9c901758ec3a50eea6d26c35d42ae5686fe606e7c7496f98d9dfa74a11e9508a''
   \<and> calculateHash example_doc = Inr ''6ed56323968118631ce0254f5d97e4ea14bb9fba1a28980eb54a4c23e204935e''
   \<and> get (comparison (example_env unreachable [])
             (JObj [(''status'', JStr ''ok''), (''exists'', JBool True),
                    (''cloudTimestamp'', JNum 1700000002000),
                    (''cloudHash'', JStr ''9c901758ec3a50eea6d26c35d42ae5686fe606e7c7496f98d9dfa74a11e9508a''),
                    (''recordCount'', JNum 0), (''schemaVersion'', JNum 1)])
             (fst (getLocalMetadata (example_env unreachable []) (example_world example_doc))))
          ''hasConflict'' = JBool True"
proof -
  have "calculateHash stamped_doc = Inr (sha256_hex (serialize stamped_doc))"
    by (simp add: stamped_doc_def)
  moreover have "calculateHash example_doc = Inr (sha256_hex (serialize example_doc))"
    by (simp add: example_doc_def)
  moreover have "get (comparison (example_env unreachable [])
             (JObj [(''status'', JStr ''ok''), (''exists'', JBool True),
                    (''cloudTimestamp'', JNum 1700000002000),
                    (''cloudHash'', JStr ''9c901758ec3a50eea6d26c35d42ae5686fe606e7c7496f98d9dfa74a11e9508a''),
                    (''recordCount'', JNum 0), (''schemaVersion'', JNum 1)])
             (fst (getLocalMetadata (example_env unreachable []) (example_world example_doc))))
          ''hasConflict'' = JBool True"
    by (simp add: example_local_metadata comparison_def js_and_def hash_example_doc)
  ultimately show ?thesis
    by (simp add: hash_stamped_doc hash_example_doc)
qed

subsection \<open>The stamp of the remote store\<close>

lemma filter_update_dropped:
  "k \<in> S \<Longrightarrow> filter (\<lambda>entry. fst entry \<notin> S) (AList.update k v al) = filter (\<lambda>entry. fst entry \<notin> S) al"
  by (induction al) auto

lemma without_provenance_set_prop:
  "k \<in> set provenance_fields \<Longrightarrow> without_provenance (set_prop v k x) = without_provenance v"
  by (cases v) (simp_all add: filter_update_dropped)

lemma without_provenance_stamp:
  "without_provenance (stamp_payload g request payload) = without_provenance payload"
  by (simp add: stamp_payload_def without_provenance_set_prop provenance_fields_def)

lemma without_provenance_fresh:
  "set provenance_fields \<inter> fst ` set (members D) = {} \<Longrightarrow> without_provenance D = D"
  by (cases D) (auto simp: members_def filter_id_conv)

lemma nullish_set_prop [simp]: "nullish (set_prop v k x) = nullish v"
  by (cases v) simp_all

lemma truthy_set_prop [simp]: "truthy (set_prop v k x) = truthy v"
  by (cases v) simp_all

lemma truthy_not_nullish: "truthy v \<Longrightarrow> \<not> nullish v"
  by (cases v) simp_all

lemma upload_ok:
  assumes "uploadData g request d = (Inr result, d')" "get result ''status'' = JStr ''ok''"
  shows "truthy (get request ''payload'')
         \<and> (\<exists>n. countRecords (stamp_payload g request (get request ''payload'')) = Inr n)
         \<and> (\<exists>file. dataFile d' = Some file
                \<and> fileContent file = serialize (stamp_payload g request (get request ''payload'')))"
  using assms
  by (auto simp: uploadData_def Let_def createBackupOfFile_def split: if_splits sum.splits option.splits)

lemma has_conflict_iff:
  "get (comparison env cm lm) ''hasConflict'' = JBool True
     \<longleftrightarrow> truthy (get (get (comparison env cm lm) ''cloud'') ''exists'')
         \<and> truthy (get (get (comparison env cm lm) ''local'') ''exists'')
         \<and> \<not> strict_eq (get (get (comparison env cm lm) ''cloud'') ''hash'')
                         (get (get (comparison env cm lm) ''local'') ''hash'')"
  by (cases "get cm ''exists''"; cases "get lm ''exists''")
     (auto simp: comparison_def js_and_def js_or_def)

lemma getLocalMetadata_no_data:
  "generateData env w = Inl e \<Longrightarrow> getLocalMetadata env w = (no_local_data, w)"
  by (simp add: getLocalMetadata_def)

section \<open>The claims\<close>

text \<open>
  C1. Every invocation of the \<open>CLOUD_SYNC_DOWNLOAD\<close> handler that resolves starts by
  running \<open>createLocalBackup\<close> to its end: the first event the invocation adds to the
  trace is the completed backup, so the download request and every call of an importer come
  after it. Whenever the download that follows fails, the handler's result is the error
  object with the message, the path the backup returned and \<open>backupPreserved: true\<close>
  (also when that path is \<open>null\<close>).
\<close>

theorem backup_before_download:
  assumes "CLOUD_SYNC_DOWNLOAD env w = Some (r, w')"
  shows "(\<exists>rest. trace w' = trace w @ BackupCompleted (fst (createLocalBackup env w)) # rest)
         \<and> (\<forall>e w2. downloadFromCloud env (snd (createLocalBackup env w)) = Some (Inl e, w2) \<longrightarrow>
               r = Inr (JObj [(''status'', JStr ''error''),
                              (''error'', JStr (message e)),
                              (''backupPath'', fst (createLocalBackup env w)),
                              (''backupPreserved'', JBool True)]))"
proof -
  obtain backupPath w1 where b: "createLocalBackup env w = (backupPath, w1)"
    by (cases "createLocalBackup env w")
  from assms b obtain outcome where d: "downloadFromCloud env w1 = Some (outcome, w')"
    by (auto simp: CLOUD_SYNC_DOWNLOAD_def split: option.splits)
  from downloadFromCloud_trace [OF d] createLocalBackup_trace [of env w] b
  have "\<exists>rest. trace w' = trace w @ BackupCompleted backupPath # rest"
    by auto
  moreover have "r = Inr (JObj [(''status'', JStr ''error''), (''error'', JStr (message e)),
                              (''backupPath'', backupPath), (''backupPreserved'', JBool True)])"
    if "downloadFromCloud env w1 = Some (Inl e, w2)" for e w2
    using that assms b d by (auto simp: CLOUD_SYNC_DOWNLOAD_def try_catch_def)
  ultimately show ?thesis using b by simp
qed

text \<open>On the example installation: the store holds a document, the remote has no file. The
  handler answers with the remote's message, the path of the backup it wrote and the flag,
  and the completed backup is the first event of the run.\<close>

theorem backup_before_download_witness:
  "fst (the (CLOUD_SYNC_DOWNLOAD (example_env (answers no_file_response) [no_file_response])
               (example_world example_doc)))
     = Inr (JObj [(''status'', JStr ''error''),
                  (''error'', JStr ''No data file found in cloud storage''),
                  (''backupPath'', JStr ''/userData/cloud-sync-backups/backup_2023-11-14T22-13-20-000Z.json''),
                  (''backupPreserved'', JBool True)])
   \<and> hd (trace (snd (the (CLOUD_SYNC_DOWNLOAD (example_env (answers no_file_response) [no_file_response])
               (example_world example_doc)))))
     = BackupCompleted (JStr ''/userData/cloud-sync-backups/backup_2023-11-14T22-13-20-000Z.json'')"
proof -
  define env where "env = example_env (answers no_file_response) [no_file_response]"
  define w where "w = example_world example_doc"
  define w1 where "w1 = snd (createLocalBackup env w)"
  have b: "fst (createLocalBackup env w) = JStr ''/userData/cloud-sync-backups/backup_2023-11-14T22-13-20-000Z.json''"
    and c1: "cfg w1 = example_config"
    by (simp_all add: env_def w_def w1_def example_backup)
  have d: "downloadFromCloud env w1
             = Some (Inl (Error ''No data file found in cloud storage''),
                     log_event (Requested (JObj [(''action'', JStr ''download'')])) w1)"
    by (simp add: downloadFromCloud_def Let_def c1 env_def example_request no_file_response_def
          new_Error_def)
  then obtain r w' where h: "CLOUD_SYNC_DOWNLOAD env w = Some (r, w')"
    by (cases "createLocalBackup env w") (auto simp: CLOUD_SYNC_DOWNLOAD_def w1_def)
  from backup_before_download [OF h] d b
  have "r = Inr (JObj [(''status'', JStr ''error''),
                  (''error'', JStr ''No data file found in cloud storage''),
                  (''backupPath'', JStr ''/userData/cloud-sync-backups/backup_2023-11-14T22-13-20-000Z.json''),
                  (''backupPreserved'', JBool True)])"
    and "\<exists>rest. trace w' = trace w @ BackupCompleted (JStr ''/userData/cloud-sync-backups/backup_2023-11-14T22-13-20-000Z.json'') # rest"
    by (auto simp: w1_def)
  with h show ?thesis
    by (auto simp: env_def w_def)
qed

text \<open>
  C2. A document that the upload action has stored comes back from the download action
  with four members more, the provenance fields that \<open>uploadData\<close> writes into it. With
  those set aside the payload is the uploaded document again, and so is its hash: for every
  request whose upload succeeds, the download that follows answers with a payload that,
  without the provenance fields, hashes like the uploaded document without them; and when
  the uploaded document has no member of those names to begin with, like the uploaded
  document itself. \<open>JSON.parse\<close> is taken to read the stored text back as the document
  that was printed, which is what it does for a document that itself came out of
  \<open>JSON.parse\<close>, as the payload of a request does.
\<close>

theorem round_trip_modulo_provenance:
  assumes up: "uploadData g request d = (Inr result, d')" "get result ''status'' = JStr ''ok''"
    and parse: "gs_parse g (serialize (stamp_payload g request (get request ''payload'')))
                  = Inr (stamp_payload g request (get request ''payload''))"
  shows "\<exists>response. downloadData g d' = Inr response
           \<and> get response ''status'' = JStr ''ok''
           \<and> calculateHash (without_provenance (get response ''payload''))
               = calculateHash (without_provenance (get request ''payload''))
           \<and> (set provenance_fields \<inter> fst ` set (members (get request ''payload'')) = {}
                \<longrightarrow> without_provenance (get response ''payload'') = get request ''payload''
                    \<and> calculateHash (without_provenance (get response ''payload''))
                        = calculateHash (get request ''payload''))"
proof -
  define stamped where "stamped = stamp_payload g request (get request ''payload'')"
  from upload_ok [OF up] obtain n stored
    where t: "truthy (get request ''payload'')"
      and n: "countRecords stamped = Inr n"
      and f: "dataFile d' = Some stored" "fileContent stored = serialize stamped"
    unfolding stamped_def by blast
  have nn: "\<not> nullish stamped"
    using t by (simp add: stamped_def stamp_payload_def truthy_not_nullish)
  define response where
    "response = JObj [(''status'', JStr ''ok''),
                      (''cloudTimestamp'', JNum (lastUpdated stored)),
                      (''cloudHash'', JStr (gs_calculateHash (fileContent stored))),
                      (''recordCount'', JNum n),
                      (''schemaVersion'', js_or (get stamped ''_schemaVersion'') (JNum 1)),
                      (''payload'', stamped)]"
  have d: "downloadData g d' = Inr response"
    using f n nn parse by (simp add: downloadData_def response_def stamped_def)
  have p: "get response ''payload'' = stamped" and st: "get response ''status'' = JStr ''ok''"
    by (simp_all add: response_def)
  have w: "without_provenance stamped = without_provenance (get request ''payload'')"
    by (simp add: stamped_def without_provenance_stamp)
  from d p st w without_provenance_fresh [of "get request ''payload''"] show ?thesis
    by auto
qed

text \<open>On the example: the envelope that \<open>uploadToCloud\<close> sends for the example document
  is uploaded into an empty Drive; the download returns the stamped document, and without
  the stamp it hashes like the example document.\<close>

theorem round_trip_modulo_provenance_witness:
  "get (projr (downloadData (example_gs [stamped_doc])
                 (snd (uploadData (example_gs [stamped_doc]) upload_envelope empty_drive)))) ''payload''
     = stamped_doc
   \<and> calculateHash (without_provenance stamped_doc) = calculateHash example_doc
   \<and> calculateHash example_doc = Inr ''6ed56323968118631ce0254f5d97e4ea14bb9fba1a28980eb54a4c23e204935e''"
proof -
  define g where "g = example_gs [stamped_doc]"
  have st: "stamp_payload g upload_envelope (get upload_envelope ''payload'') = stamped_doc"
    by (simp add: g_def stamp_example)
  have up: "uploadData g upload_envelope empty_drive
              = (Inr (JObj [(''status'', JStr ''ok''), (''cloudTimestamp'', JNum 1700000002000),
                            (''cloudHash'', JStr (sha256_hex (serialize stamped_doc))),
                            (''recordCount'', JNum 0), (''fileId'', JStr ''file-1'')]),
                 snd (uploadData g upload_envelope empty_drive))"
    by (simp add: g_def upload_example)
  have ok: "get (JObj [(''status'', JStr ''ok''), (''cloudTimestamp'', JNum 1700000002000),
                       (''cloudHash'', JStr (sha256_hex (serialize stamped_doc))),
                       (''recordCount'', JNum 0), (''fileId'', JStr ''file-1'')]) ''status'' = JStr ''ok''"
    by simp
  have parse: "gs_parse g (serialize (stamp_payload g upload_envelope (get upload_envelope ''payload'')))
                 = Inr (stamp_payload g upload_envelope (get upload_envelope ''payload''))"
    by (simp add: st) (simp add: g_def example_parse_def)
  have pl: "get upload_envelope ''payload'' = example_doc"
    by (simp add: upload_envelope_def)
  have fresh: "set provenance_fields \<inter> fst ` set (members example_doc) = {}"
    by (simp add: provenance_fields_def members_def example_doc_def)
  from round_trip_modulo_provenance [OF up ok parse] obtain response
    where r: "downloadData g (snd (uploadData g upload_envelope empty_drive)) = Inr response"
      and h: "calculateHash (without_provenance (get response ''payload'')) = calculateHash example_doc"
    using fresh by (auto simp: pl)
  have "downloadData g (snd (uploadData g upload_envelope empty_drive))
          = Inr (JObj [(''status'', JStr ''ok''), (''cloudTimestamp'', JNum 1700000002000),
                       (''cloudHash'', JStr (sha256_hex (serialize stamped_doc))),
                       (''recordCount'', JNum 0), (''schemaVersion'', JNum 1), (''payload'', stamped_doc)])"
    by (simp add: g_def download_example)
  with r h have "get response ''payload'' = stamped_doc"
    and "calculateHash (without_provenance stamped_doc) = calculateHash example_doc"
    by auto
  moreover have "calculateHash example_doc = Inr ''6ed56323968118631ce0254f5d97e4ea14bb9fba1a28980eb54a4c23e204935e''"
    using hash_example_doc by (simp add: example_doc_def)
  ultimately show ?thesis using r by (simp add: g_def)
qed

text \<open>
  C3, as amended. The comparison resolves with \<open>status: 'ok'\<close> whenever the remote
  fetch settles, whatever its outcome. \<open>hasConflict\<close> is \<open>true\<close> exactly when both
  sides are reported as existing and their hashes differ, and it is falsy when either side
  does not exist. A remote fetch that fails degrades the remote side to
  \<open>{exists: false, error}\<close> and \<open>hasConflict\<close> is \<open>false\<close>. A local generation that
  fails degrades the local side to the zeroed metadata of \<open>getLocalMetadata\<close>, which has
  no \<open>error\<close> member.
\<close>

theorem metadata_comparison:
  assumes "getCloudMetadata env (cfg w) = Some outcome"
  shows "let cloudMeta = degrade outcome;
             localMeta = fst (getLocalMetadata env w);
             result = comparison env cloudMeta localMeta
         in CLOUD_SYNC_GET_METADATA env w = Some (Inr result, snd (getLocalMetadata env w))
            \<and> get result ''status'' = JStr ''ok''
            \<and> (get result ''hasConflict'' = JBool True
                 \<longleftrightarrow> truthy (get (get result ''cloud'') ''exists'')
                     \<and> truthy (get (get result ''local'') ''exists'')
                     \<and> \<not> strict_eq (get (get result ''cloud'') ''hash'') (get (get result ''local'') ''hash''))
            \<and> (\<not> truthy (get (get result ''cloud'') ''exists'') \<or> \<not> truthy (get (get result ''local'') ''exists'')
                 \<longrightarrow> \<not> truthy (get result ''hasConflict''))
            \<and> (\<forall>e. outcome = Inl e \<longrightarrow>
                   cloudMeta = JObj [(''exists'', JBool False), (''error'', JStr (message e))]
                   \<and> get result ''hasConflict'' = JBool False)
            \<and> (\<forall>e. generateData env w = Inl e \<longrightarrow>
                   localMeta = no_local_data \<and> get localMeta ''error'' = JUndefined)"
proof -
  define cm where "cm = degrade outcome"
  define lm where "lm = fst (getLocalMetadata env w)"
  have h: "CLOUD_SYNC_GET_METADATA env w = Some (Inr (comparison env cm lm), snd (getLocalMetadata env w))"
    using assms
    by (simp add: CLOUD_SYNC_GET_METADATA_def cloudMeta_of_def localMeta_of_def degrade_def
          try_catch_def cm_def lm_def case_prod_beta)
  have s: "get (comparison env cm lm) ''status'' = JStr ''ok''"
    by (simp add: comparison_def)
  have n: "\<not> truthy (get (get (comparison env cm lm) ''cloud'') ''exists'')
            \<or> \<not> truthy (get (get (comparison env cm lm) ''local'') ''exists'')
           \<longrightarrow> \<not> truthy (get (comparison env cm lm) ''hasConflict'')"
    by (auto simp: comparison_def js_and_def js_or_def)
  have c: "cm = JObj [(''exists'', JBool False), (''error'', JStr (message e))]
           \<and> get (comparison env cm lm) ''hasConflict'' = JBool False" if "outcome = Inl e" for e
    using that by (simp add: cm_def degrade_def comparison_def js_and_def)
  have l: "lm = no_local_data \<and> get lm ''error'' = JUndefined" if "generateData env w = Inl e" for e
    using that by (simp add: lm_def getLocalMetadata_no_data no_local_data_def)
  from h s n c l has_conflict_iff [of env cm lm] show ?thesis
    unfolding Let_def cm_def [symmetric] lm_def [symmetric] by blast
qed

text \<open>On the example installation, with the remote out of reach: the comparison still
  answers, the remote side is reported absent and the local side is intact.\<close>

theorem metadata_comparison_witness:
  "fst (the (CLOUD_SYNC_GET_METADATA (example_env unreachable []) (example_world example_doc)))
     = Inr (JObj [(''status'', JStr ''ok''),
                  (''cloud'', JObj [(''exists'', JBool False), (''timestamp'', JUndefined),
                                    (''timestampFormatted'', JStr ''Never''), (''hash'', JUndefined),
                                    (''recordCount'', JNum 0)]),
                  (''local'', JObj [(''exists'', JBool True), (''timestamp'', JNum 1690000000000),
                                    (''timestampFormatted'', JStr ''1690000000000''),
                                    (''hash'', JStr (sha256_hex (serialize example_doc))),
                                    (''recordCount'', JNum 0)]),
                  (''hasConflict'', JBool False)])"
proof -
  define env :: "json env" where "env = example_env unreachable []"
  define w where "w = example_world example_doc"
  have g: "getCloudMetadata env (cfg w) = Some (Inl (Error ''connect ECONNREFUSED 127.0.0.1:443''))"
    by (simp add: getCloudMetadata_def env_def w_def example_unreachable)
  from metadata_comparison [OF g]
  have "CLOUD_SYNC_GET_METADATA env w
          = Some (Inr (comparison env (degrade (Inl (Error ''connect ECONNREFUSED 127.0.0.1:443'')))
                         (fst (getLocalMetadata env w))), snd (getLocalMetadata env w))"
    by (simp add: Let_def)
  then show ?thesis
    by (simp add: example_local_metadata comparison_def degrade_def js_or_def js_and_def
          formatTimestamp_def show_int_def digits.simps digit_char_def env_def w_def)
qed

text \<open>C3 as stated fails for the local side: when the generator throws, the local
  metadata is not \<open>{exists: false, error}\<close>; it carries no error at all.\<close>

theorem local_failure_carries_no_error:
  "generateData (example_env (answers cloud_metadata) [cloud_metadata]) (example_world JNull)
     = Inl (Error ''no data'')
   \<and> fst (localMeta_of (example_env (answers cloud_metadata) [cloud_metadata]) (example_world JNull))
     \<noteq> JObj [(''exists'', JBool False), (''error'', JStr ''no data'')]
   \<and> get (fst (localMeta_of (example_env (answers cloud_metadata) [cloud_metadata]) (example_world JNull)))
         ''error'' = JUndefined"
  by (simp add: generateData_def localMeta_of_def getLocalMetadata_def degrade_def no_local_data_def)

text \<open>
  C4, as amended. \<open>calculateHash\<close> is a function of the \<open>JSON.stringify\<close> text of
  the document: two documents (other than bare strings and \<open>undefined\<close>) with the same
  serialization have the same hash, which is the SHA-256 of that text, and hashing the
  serialized string gives the same hash as hashing the document. The hash is not
  independent of the order in which the members were inserted: there is a document whose
  hash changes when its members are put in the reverse order.
\<close>

theorem hash_of_serialization:
  assumes "js_value D" "js_value D'"
    and "\<not> is_str D" "\<not> is_str D'" "D \<noteq> JUndefined" "D' \<noteq> JUndefined"
    and "serialize D = serialize D'"
  shows "calculateHash D = calculateHash D'
         \<and> calculateHash D = Inr (sha256_hex (serialize D))
         \<and> calculateHash (JSON_stringify D) = calculateHash D
         \<and> (\<exists>ms. js_value (JObj ms) \<and> calculateHash (JObj ms) \<noteq> calculateHash (JObj (rev ms)))"
proof -
  have "calculateHash v = Inr (sha256_hex (serialize v))
        \<and> calculateHash (JSON_stringify v) = Inr (sha256_hex (serialize v))"
    if "\<not> is_str v" "v \<noteq> JUndefined" for v
    using that by (cases v) (simp_all add: calculateHash_def JSON_stringify_def)
  from this [of D] this [of D'] assms
  have "calculateHash D = calculateHash D'
         \<and> calculateHash D = Inr (sha256_hex (serialize D))
         \<and> calculateHash (JSON_stringify D) = calculateHash D"
    by simp
  moreover have "js_value (JObj (members example_doc))
                 \<and> calculateHash (JObj (members example_doc)) \<noteq> calculateHash (JObj (rev (members example_doc)))"
    using hash_example_doc hash_reordered_doc
    by (simp add: members_def example_doc_def reordered_doc_def)
  ultimately show ?thesis by blast
qed

text \<open>Two documents that differ only in a member whose value is \<open>undefined\<close> have the
  same serialization, hence the same hash.\<close>

theorem hash_of_serialization_witness:
  "JObj [(''a'', JNum 1), (''b'', JUndefined)] \<noteq> JObj [(''a'', JNum 1)]
   \<and> serialize (JObj [(''a'', JNum 1), (''b'', JUndefined)]) = serialize (JObj [(''a'', JNum 1)])
   \<and> calculateHash (JObj [(''a'', JNum 1), (''b'', JUndefined)]) = calculateHash (JObj [(''a'', JNum 1)])"
proof -
  have s: "serialize (JObj [(''a'', JNum 1), (''b'', JUndefined)]) = serialize (JObj [(''a'', JNum 1)])"
    by simp
  have v: "js_value (JObj [(''a'', JNum 1), (''b'', JUndefined)])" "js_value (JObj [(''a'', JNum 1)])"
    by (simp_all add: safe_integer_def)
  from hash_of_serialization [OF v _ _ _ _ s] show ?thesis by simp
qed

text \<open>C4 as stated fails: the example document and the same document with its two
  members inserted in the other order have the same members and different hashes.\<close>

theorem reordered_document_hashes_differently:
  "set (members example_doc) = set (members reordered_doc)
   \<and> calculateHash example_doc \<noteq> calculateHash reordered_doc"
proof -
  have "calculateHash example_doc = Inr ''6ed56323968118631ce0254f5d97e4ea14bb9fba1a28980eb54a4c23e204935e''"
    using hash_example_doc by (simp add: example_doc_def)
  moreover have "calculateHash reordered_doc = Inr ''67ad7fc85a725a9a26601ee0df5967f9260505c3b5b46c4c900dd24768061cfb''"
    using hash_reordered_doc by (simp add: reordered_doc_def)
  moreover have "set (members example_doc) = set (members reordered_doc)"
    by (auto simp: example_doc_def reordered_doc_def members_def)
  ultimately show ?thesis by simp
qed

text \<open>
  C5, as amended. \<open>makeRequest\<close> follows a chain of redirects hop by hop, with no bound
  on their number and no error for exceeding one: it settles with an outcome exactly when
  the chain of exchanges yields that outcome after some number of hops, whatever that
  number is. The outcome is the one of the first exchange that is not a redirect, unless
  the idle timer of a request that was answered by a redirect fires before, in which case
  it is the rejection \<open>'Request timeout'\<close>. What ends a chain that does not end by itself
  is such a timer: when every exchange takes time and every connection stays open until its
  timer, the call always settles; and when every exchange is answered by a redirect, the
  call settles with \<open>'Request timeout'\<close> or not at all.
\<close>

theorem redirects_unbounded:
  "(makeRequest env c p u = Some r \<longleftrightarrow> (\<exists>n. follow n env c p u None = Some r))
   \<and> ((\<forall>method url body. 0 < elapsed env method url body) \<and> (\<forall>url. stays_open env url)
        \<longrightarrow> makeRequest env c p u \<noteq> None)
   \<and> ((\<forall>p' u'. \<exists>newUrl timer. snd (exchange env c p' u') = Redirected newUrl timer)
        \<and> makeRequest env c p u = Some r
        \<longrightarrow> r = Inl request_timeout)"
proof -
  have "makeRequest env c p u = Some r \<longleftrightarrow> (\<exists>n. follow n env c p u None = Some r)"
    using makeRequest_follow follow_makeRequest by blast
  moreover have "makeRequest env c p u \<noteq> None"
    if "\<forall>method url body. 0 < elapsed env method url body" "\<forall>url. stays_open env url"
    using that by (intro makeRequest_settles) simp_all
  moreover have "r = Inl request_timeout"
    if "\<forall>p' u'. \<exists>newUrl timer. snd (exchange env c p' u') = Redirected newUrl timer"
      and "makeRequest env c p u = Some r"
  proof -
    from makeRequest_follow [OF that(2)] obtain n where "follow n env c p u None = Some r"
      by blast
    with that(1) show ?thesis by (intro endless_chain_follow [of env c n p u None r]) simp_all
  qed
  ultimately show ?thesis by blast
qed

text \<open>A remote that redirects every request to itself, three seconds per exchange: ten
  exchanges do not settle the call, the eleventh does, and what it settles with is the
  timeout of the first request.\<close>

theorem redirects_unbounded_witness:
  "follow 10 (example_env redirect_loop []) example_config (JObj [(''action'', JStr ''metadata'')]) None None
     = None
   \<and> makeRequest (example_env redirect_loop []) example_config (JObj [(''action'', JStr ''metadata'')]) None
     = Some (Inl (Error ''Request timeout''))"
proof -
  define env :: "json env" where "env = example_env redirect_loop []"
  define p where "p = JObj [(''action'', JStr ''metadata'')]"
  have ten: "follow 10 env example_config p None None = None"
    by (simp add: env_def follow_numeral follow_one loop_exchange fired_def still_armed_def)
  have timed: "(\<forall>method url body. 0 < elapsed env method url body) \<and> (\<forall>url. stays_open env url)"
    by (simp add: env_def)
  have endless: "\<forall>p' u'. \<exists>newUrl timer. snd (exchange env example_config p' u') = Redirected newUrl timer"
    by (simp add: env_def loop_exchange)
  from redirects_unbounded [of env example_config p None] timed
  obtain r where r: "makeRequest env example_config p None = Some r" by blast
  with redirects_unbounded [of env example_config p None r] endless
  have "r = Inl request_timeout" by blast
  with r ten show ?thesis by (simp add: env_def p_def request_timeout_def)
qed

text \<open>C5 as stated fails: a chain of six redirects is followed to the answer behind it,
  with no error after the fifth hop; and a redirect loop ends with \<open>'Request timeout'\<close>, the
  rejection of a timer, not with an error about the number of hops.\<close>

theorem six_redirects_followed:
  "makeRequest (example_env (six_redirects cloud_metadata) [cloud_metadata]) example_config
     (JObj [(''action'', JStr ''metadata'')]) None = Some (Inr cloud_metadata)
   \<and> makeRequest (example_env redirect_loop []) example_config (JObj [(''action'', JStr ''metadata'')]) None
     = Some (Inl (Error ''Request timeout''))"
  using follow_makeRequest [OF six_redirects_chain] redirect_loop_times_out
  by (simp add: request_timeout_def)

text \<open>
  C6. A download response whose \<open>schemaVersion\<close> is a number above the supported
  \<open>SCHEMA_VERSION\<close> makes \<open>downloadFromCloud\<close> fail, and the world it leaves is the
  world before the call with nothing but the request recorded: no importer was invoked,
  the store and the configuration are untouched. When the response is not itself an error
  response and carries a payload (the two checks that come first in the source), the
  failure is the incompatible-version error.
\<close>

theorem version_gate:
  assumes resp: "makeRequest env (cfg w) (JObj [(''action'', JStr ''download'')]) None = Some (Inr response)"
    and ver: "get response ''schemaVersion'' = JNum v" "SCHEMA_VERSION < v"
  shows "\<exists>e. downloadFromCloud env w
               = Some (Inl e, log_event (Requested (JObj [(''action'', JStr ''download'')])) w)
           \<and> (\<not> strict_eq (get response ''status'') (JStr ''error'') \<and> truthy (get response ''payload'')
                \<longrightarrow> e = incompatible_version)"
proof -
  have nn: "\<not> nullish response"
    using ver(1) by (cases response) auto
  have gt: "truthy (get response ''schemaVersion'')
            \<and> js_gt (string_gt env) (get response ''schemaVersion'') SCHEMA_VERSION"
    using ver by (simp add: js_gt_def SCHEMA_VERSION_def)
  show ?thesis
    using resp nn gt by (simp add: downloadFromCloud_def Let_def)
qed

text \<open>On the example installation: the remote answers with \<open>schemaVersion = 2\<close>; the
  download fails with the incompatible-version error and only the request is recorded.\<close>

theorem version_gate_witness:
  "downloadFromCloud (example_env (answers newer_response) [newer_response]) (example_world JNull)
     = Some (Inl incompatible_version,
             log_event (Requested (JObj [(''action'', JStr ''download'')])) (example_world JNull))"
proof -
  have r: "makeRequest (example_env (answers newer_response) [newer_response]) (cfg (example_world JNull))
             (JObj [(''action'', JStr ''download'')]) None = Some (Inr newer_response)"
    by (simp add: example_request)
  have v: "get newer_response ''schemaVersion'' = JNum 2" "SCHEMA_VERSION < 2"
    by (simp_all add: newer_response_def SCHEMA_VERSION_def)
  have ok: "\<not> strict_eq (get newer_response ''status'') (JStr ''error'')
            \<and> truthy (get newer_response ''payload'')"
    by (simp add: newer_response_def example_doc_def)
  from version_gate [OF r v] ok show ?thesis by auto
qed

text \<open>
  C7, as amended. After more than ten successful backups in a row, written under pairwise
  different names (their time stamps differ) into a directory that nothing else touches, the
  directory holds exactly ten backup files, and they are the ten greatest names among the
  files that were there and the files that were written: the listing \<open>sort().reverse()\<close>
  of what is left is the first ten entries of the descending listing of them all. The names
  embed the time stamp in a fixed width, so the greatest names are the most recent stamps
  (\<open>backupFileName_less\<close>).
\<close>

theorem backup_rotation:
  assumes run: "backup_run env ws dir = Some dir'"
    and many: "10 < length ws"
    and names: "distinct (run_names env ws)"
    and dir: "distinct (map fst dir)"
  shows "listed_backups dir'
           = take 10 (rev (sorted_list_of_set (set (backup_files dir) \<union> set (run_names env ws))))
         \<and> length (backup_files dir') = 10"
proof -
  define D where "D = foldl (\<lambda>L x. ins_desc x L) (listed_backups dir) (run_names env ws)"
  define S where "S = set (backup_files dir) \<union> set (run_names env ws)"
  from many have ne: "ws \<noteq> []" by auto
  from backup_run_listed [OF run dir ne] have l: "listed_backups dir' = take 10 D"
    by (simp add: D_def)
  have Dd: "sorted_wrt (>) D"
    unfolding D_def by (intro sorted_foldl_ins_desc listed_backups_desc dir)
  have Ds: "set D = S"
    by (simp add: D_def S_def)
  have fin: "finite S" by (simp add: S_def)
  have "sorted_wrt (>) (rev (sorted_list_of_set S))"
    by (simp add: sorted_wrt_rev strict_sorted_iff)
  with Dd Ds fin have D_eq: "D = rev (sorted_list_of_set S)"
    by (intro desc_unique) simp_all
  have "distinct D" using Dd by (metis distinct_rev sorted_wrt_rev strict_sorted_iff)
  then have "length D = card S" using Ds distinct_card by fastforce
  moreover have "card (set (run_names env ws)) \<le> card S"
    using fin by (intro card_mono) (simp_all add: S_def)
  moreover have "card (set (run_names env ws)) = length (run_names env ws)"
    using names by (rule distinct_card)
  moreover have "length (run_names env ws) = length ws"
    by (simp add: run_names_def)
  ultimately have "10 \<le> length D" using many by simp
  then have "length (listed_backups dir') = 10" by (simp add: l)
  then have "length (backup_files dir') = 10" by simp
  moreover from l D_eq have "listed_backups dir' = take 10 (rev (sorted_list_of_set S))" by simp
  ultimately show ?thesis by (simp only: S_def)
qed

text \<open>Eleven backups into an empty directory leave the ten newest files.\<close>

theorem backup_rotation_witness:
  "length eleven_backups = 11
   \<and> backup_run (example_env unreachable []) eleven_backups [] = Some ten_newest
   \<and> length (backup_files ten_newest) = 10
   \<and> listed_backups ten_newest
       = take 10 (rev (sorted_list_of_set (set (run_names (example_env unreachable []) eleven_backups))))"
proof -
  have many: "10 < length eleven_backups"
    by (simp add: eleven_backups_def)
  have names: "distinct (run_names (example_env unreachable []) eleven_backups)"
    by (simp add: eleven_names)
  have dir: "distinct (map fst ([] :: (string \<times> json) list))"
    by simp
  from backup_rotation [OF eleven_run many names dir] eleven_run show ?thesis
    by (simp add: eleven_backups_def backup_files_def)
qed

text \<open>C7 as stated fails: the name of a backup is its time stamp to the millisecond, so
  backups that read the clock at the same millisecond write the same file. Eleven such
  backups, all successful, leave one file.\<close>

theorem same_millisecond_backups_overwrite:
  "length eleven_at_once = 11
   \<and> backup_run (example_env unreachable []) eleven_at_once []
       = Some [(''backup_2023-11-14T22-13-20-000Z.json'', example_doc)]
   \<and> length (backup_files [(''backup_2023-11-14T22-13-20-000Z.json'', example_doc)]) = 1"
  by (simp add: eleven_at_once_run) (simp add: eleven_at_once_def backup_files_def startsWith_def)






text \<open>
  C10. A download response whose \<open>schemaVersion\<close> is falsy (absent, \<open>null\<close> or \<open>0\<close>)
  and that passes the checks before the version check (it is not an error response and it
  has a payload) goes straight to the import dispatch on its payload: the result of
  \<open>downloadFromCloud\<close> is the result of \<open>import_response\<close>, whatever the payload says
  about its own schema.
\<close>

theorem falsy_version_not_checked:
  assumes resp: "makeRequest env (cfg w) (JObj [(''action'', JStr ''download'')]) None = Some (Inr response)"
    and falsy: "\<not> truthy (get response ''schemaVersion'')"
    and ok: "\<not> nullish response" "\<not> strict_eq (get response ''status'') (JStr ''error'')"
            "truthy (get response ''payload'')"
  shows "downloadFromCloud env w
           = Some (import_response env response
                     (log_event (Requested (JObj [(''action'', JStr ''download'')])) w))"
  using assms by (simp add: downloadFromCloud_def Let_def)

text \<open>On the example installation: the response has no \<open>schemaVersion\<close> and its payload
  calls itself schema 99; the download succeeds and the payload is what the store holds
  afterwards.\<close>

theorem falsy_version_not_checked_witness:
  "fst (the (downloadFromCloud (example_env (answers unversioned_response) [unversioned_response])
               (example_world JNull)))
     = Inr unversioned_response
   \<and> store (snd (the (downloadFromCloud (example_env (answers unversioned_response) [unversioned_response])
               (example_world JNull))))
     = get unversioned_response ''payload''"
proof -
  define env where "env = example_env (answers unversioned_response) [unversioned_response]"
  have r: "makeRequest env (cfg (example_world JNull))
             (JObj [(''action'', JStr ''download'')]) None = Some (Inr unversioned_response)"
    by (simp add: example_request env_def)
  have c: "\<not> truthy (get unversioned_response ''schemaVersion'')" "\<not> nullish unversioned_response"
    "\<not> strict_eq (get unversioned_response ''status'') (JStr ''error'')"
    "truthy (get unversioned_response ''payload'')"
    by (simp_all add: unversioned_response_def)
  have "import_response env unversioned_response
          (log_event (Requested (JObj [(''action'', JStr ''download'')])) (example_world JNull))
        = (Inr unversioned_response,
           \<lparr>cfg = example_config\<lparr>googleDriveLastSync := JNum 1700000000000\<rparr>,
            store = get unversioned_response ''payload'', backupDir = [], ticks = 1,
            trace = [Requested (JObj [(''action'', JStr ''download'')]),
                     ImportInvoked ''importUgif30Json'' (get unversioned_response ''payload''),
                     ConfigSaved (example_config\<lparr>googleDriveLastSync := JNum 1700000000000\<rparr>)]\<rparr>)"
    by (simp add: import_response_def import_payload_def call_import_def record_sync_def
          save_config_def read_clock_def log_event_def Let_def env_def
          example_world_def unversioned_response_def)
  with falsy_version_not_checked [OF r c] show ?thesis
    by (simp add: env_def)
qed

end
